theory Spec2Isabelle
  imports Complex_Main
begin

section \<open>JavaScript numbers\<close>

text \<open>
  The TypeScript type \<^verbatim>\<open>number\<close> is the IEEE 754 double. It is modelled by the datatype
  below: a finite number carries the real it denotes, and the arithmetic operators round
  their exact result to the nearest double, as the language prescribes. The negative zero
  is identified with zero; the program divides by the scale of the codec and by a time
  that it has found strictly positive, never by a zero. The three non-finite values are
  kept, because the program meets them: \<^verbatim>\<open>Math.max()\<close> of no arguments is
  \<^verbatim>\<open>-Infinity\<close>, an index read past the end of an array is \<^verbatim>\<open>undefined\<close> (\<^verbatim>\<open>NaN\<close> in
  arithmetic), and a result too large for a double is an infinity.
\<close>

datatype number = Num real | PosInfinity | NegInfinity | NaN

subsection \<open>Rounding to the nearest double\<close>

text \<open>
  The binary exponent of a positive real \<open>a\<close>, the integer \<open>e\<close> with
  \<open>2\<^sup>e \<le> a < 2\<^sup>e\<^sup>+\<^sup>1\<close>: \<open>expUp\<close> counts the halvings of a real from 1 on, \<open>expDown\<close> the
  doublings of a real below 1. The exponent of a double is at least -1022, which the
  subnormal numbers share.
\<close>

function expUp :: "real \<Rightarrow> int" where
  "expUp a = (if 2 \<le> a then expUp (a / 2) + 1 else 0)"
  by pat_completeness auto
termination
proof (relation "measure (\<lambda>a. nat \<lfloor>a\<rfloor>)")
  show "wf (measure (\<lambda>a :: real. nat \<lfloor>a\<rfloor>))"
    by simp
next
  fix a :: real
  assume a: "2 \<le> a"
  then have "1 \<le> \<lfloor>a\<rfloor>"
    by (simp add: le_floor_iff)
  then have "a / 2 < real_of_int \<lfloor>a\<rfloor>"
    by linarith
  then have "\<lfloor>a / 2\<rfloor> < \<lfloor>a\<rfloor>"
    by (simp add: floor_less_iff)
  with \<open>1 \<le> \<lfloor>a\<rfloor>\<close> show "(a / 2, a) \<in> measure (\<lambda>a. nat \<lfloor>a\<rfloor>)"
    by simp
qed

function expDown :: "real \<Rightarrow> int" where
  "expDown a = (if 0 < a \<and> a < 1 then expDown (2 * a) - 1 else 0)"
  by pat_completeness auto
termination
proof (relation "measure (\<lambda>a. nat \<lfloor>1 / a\<rfloor>)")
  show "wf (measure (\<lambda>a :: real. nat \<lfloor>1 / a\<rfloor>))"
    by simp
next
  fix a :: real
  assume a: "0 < a \<and> a < 1"
  define b where "b = 1 / a"
  from a have "1 \<le> \<lfloor>b\<rfloor>"
    by (simp add: b_def le_floor_iff)
  then have "b / 2 < real_of_int \<lfloor>b\<rfloor>"
    by linarith
  then have less: "\<lfloor>b / 2\<rfloor> < \<lfloor>b\<rfloor>"
    by (simp add: floor_less_iff)
  have half: "1 / (2 * a) = b / 2"
    by (simp add: b_def)
  have "nat \<lfloor>1 / (2 * a)\<rfloor> < nat \<lfloor>b\<rfloor>"
    unfolding half using less \<open>1 \<le> \<lfloor>b\<rfloor>\<close> by linarith
  then show "(2 * a, a) \<in> measure (\<lambda>a. nat \<lfloor>1 / a\<rfloor>)"
    unfolding b_def by simp
qed

declare expUp.simps [simp del] expDown.simps [simp del]

definition exponentOf :: "real \<Rightarrow> int" where
  "exponentOf a = max (if 1 \<le> a then expUp a else expDown a) (- 1022)"

definition pow2 :: "int \<Rightarrow> real" where
  "pow2 k = (if 0 \<le> k then 2 ^ nat k else 1 / 2 ^ nat (- k))"

text \<open>The integer nearest to \<open>q\<close>, the even one of the two on a tie.\<close>

definition roundHalfEven :: "real \<Rightarrow> int" where
  "roundHalfEven q =
     (if q - of_int \<lfloor>q\<rfloor> < 1 / 2 then \<lfloor>q\<rfloor>
      else if 1 / 2 < q - of_int \<lfloor>q\<rfloor> then \<lfloor>q\<rfloor> + 1
      else if even \<lfloor>q\<rfloor> then \<lfloor>q\<rfloor> else \<lfloor>q\<rfloor> + 1)"

definition roundToMultiple :: "real \<Rightarrow> real \<Rightarrow> real" where
  "roundToMultiple ulp a = of_int (roundHalfEven (a / ulp)) * ulp"

text \<open>
  A double has 53 significant bits: the doubles with exponent \<open>e\<close> are the multiples of
  \<open>2\<^sup>e\<^sup>-\<^sup>5\<^sup>2\<close>. \<open>nearestDouble a\<close> is the multiple nearest to a positive \<open>a\<close>, and
  \<open>toDouble x\<close> is the number that an operation whose exact result is \<open>x\<close> returns: the
  nearest double, or an infinity once rounding reaches \<open>2\<^sup>1\<^sup>0\<^sup>2\<^sup>4\<close>.
\<close>

definition nearestDouble :: "real \<Rightarrow> real" where
  "nearestDouble a = roundToMultiple (pow2 (exponentOf a - 52)) a"

definition toDouble :: "real \<Rightarrow> number" where
  "toDouble x =
     (if x = 0 then Num 0
      else if 0 < x
      then (if 2 ^ 1024 \<le> nearestDouble x then PosInfinity else Num (nearestDouble x))
      else (if 2 ^ 1024 \<le> nearestDouble (- x) then NegInfinity
            else Num (- nearestDouble (- x))))"

subsection \<open>Operators\<close>

fun isFinite :: "number \<Rightarrow> bool" where
  "isFinite (Num x) = True"
| "isFinite _ = False"

fun js_neg :: "number \<Rightarrow> number" where
  "js_neg (Num a) = Num (- a)"
| "js_neg PosInfinity = NegInfinity"
| "js_neg NegInfinity = PosInfinity"
| "js_neg NaN = NaN"

text \<open>\<^verbatim>\<open>a + b\<close>\<close>

fun js_add :: "number \<Rightarrow> number \<Rightarrow> number" where
  "js_add (Num a) (Num b) = toDouble (a + b)"
| "js_add NaN b = NaN"
| "js_add a NaN = NaN"
| "js_add PosInfinity NegInfinity = NaN"
| "js_add NegInfinity PosInfinity = NaN"
| "js_add PosInfinity b = PosInfinity"
| "js_add a PosInfinity = PosInfinity"
| "js_add NegInfinity b = NegInfinity"
| "js_add a NegInfinity = NegInfinity"

text \<open>\<^verbatim>\<open>a - b\<close>\<close>

definition js_sub :: "number \<Rightarrow> number \<Rightarrow> number" where
  "js_sub a b = js_add a (js_neg b)"

text \<open>\<^verbatim>\<open>a * b\<close>\<close>

fun js_mul :: "number \<Rightarrow> number \<Rightarrow> number" where
  "js_mul (Num a) (Num b) = toDouble (a * b)"
| "js_mul NaN b = NaN"
| "js_mul a NaN = NaN"
| "js_mul (Num a) b =
     (if a = 0 then NaN else if 0 < a then b else js_neg b)"
| "js_mul a (Num b) =
     (if b = 0 then NaN else if 0 < b then a else js_neg a)"
| "js_mul PosInfinity b = b"
| "js_mul NegInfinity b = js_neg b"

text \<open>\<^verbatim>\<open>a / b\<close>; a finite number over zero is an infinity, zero over zero is \<^verbatim>\<open>NaN\<close>.\<close>

fun js_div :: "number \<Rightarrow> number \<Rightarrow> number" where
  "js_div (Num a) (Num b) =
     (if b \<noteq> 0 then toDouble (a / b)
      else if a = 0 then NaN else if 0 < a then PosInfinity else NegInfinity)"
| "js_div NaN b = NaN"
| "js_div a NaN = NaN"
| "js_div (Num a) b = Num 0"
| "js_div a (Num b) = (if 0 \<le> b then a else js_neg a)"
| "js_div a b = NaN"

text \<open>\<^verbatim>\<open>a > b\<close>: false as soon as one side is \<^verbatim>\<open>NaN\<close>.\<close>

fun js_gt :: "number \<Rightarrow> number \<Rightarrow> bool" where
  "js_gt (Num a) (Num b) = (b < a)"
| "js_gt NaN b = False"
| "js_gt a NaN = False"
| "js_gt PosInfinity b = (b \<noteq> PosInfinity)"
| "js_gt a PosInfinity = False"
| "js_gt a NegInfinity = (a \<noteq> NegInfinity)"
| "js_gt NegInfinity b = False"

text \<open>
  \<^verbatim>\<open>Math.round(x)\<close>: the integer nearest to \<open>x\<close>, a tie going up. The result is a
  double whenever \<open>x\<close> is, so there is nothing to round.
\<close>

fun Math_round :: "number \<Rightarrow> number" where
  "Math_round (Num x) = Num (of_int \<lfloor>x + 1 / 2\<rfloor>)"
| "Math_round x = x"

text \<open>
  \<^verbatim>\<open>Number(x.toFixed(1))\<close>: \<^verbatim>\<open>toFixed\<close> prints the sign, then the integer \<open>n\<close> with
  \<open>n / 10\<close> nearest to \<open>\<bar>x\<bar>\<close> (the larger \<open>n\<close> on a tie) as a decimal with one digit
  after the point, and \<^verbatim>\<open>Number\<close> reads the decimal as the nearest double; from
  \<open>10\<^sup>2\<^sup>1\<close> on, and for the non-finite values, \<^verbatim>\<open>toFixed\<close> prints the number itself.
\<close>

fun toFixed1 :: "number \<Rightarrow> number" where
  "toFixed1 (Num x) =
     (if 10 ^ 21 \<le> \<bar>x\<bar> then Num x
      else if x < 0 then toDouble (- (of_int \<lfloor>10 * (- x) + 1 / 2\<rfloor> / 10))
      else toDouble (of_int \<lfloor>10 * x + 1 / 2\<rfloor> / 10))"
| "toFixed1 x = x"

text \<open>
  \<^verbatim>\<open>Math.max(...xs)\<close> and \<^verbatim>\<open>Math.min(...xs)\<close>: \<^verbatim>\<open>NaN\<close> as soon as one argument is,
  \<^verbatim>\<open>-Infinity\<close> and \<^verbatim>\<open>Infinity\<close> for no argument.
\<close>

definition max2 :: "number \<Rightarrow> number \<Rightarrow> number" where
  "max2 a b = (if a = NaN \<or> b = NaN then NaN else if js_gt b a then b else a)"

definition min2 :: "number \<Rightarrow> number \<Rightarrow> number" where
  "min2 a b = (if a = NaN \<or> b = NaN then NaN else if js_gt a b then b else a)"

definition Math_max :: "number list \<Rightarrow> number" where
  "Math_max xs = fold (\<lambda>x m. max2 m x) xs NegInfinity"

definition Math_min :: "number list \<Rightarrow> number" where
  "Math_min xs = fold (\<lambda>x m. min2 m x) xs PosInfinity"

text \<open>
  Arrays of numbers are lists. \<^verbatim>\<open>xs[i]\<close> past the end is \<^verbatim>\<open>undefined\<close>, which every
  arithmetic operator turns into \<^verbatim>\<open>NaN\<close>; \<^verbatim>\<open>xs[i] = v\<close> past the end extends the array,
  the holes reading as \<^verbatim>\<open>undefined\<close>.
\<close>

definition readAt :: "number list \<Rightarrow> nat \<Rightarrow> number" where
  "readAt xs i = (if i < length xs then xs ! i else NaN)"

definition writeAt :: "number list \<Rightarrow> nat \<Rightarrow> number \<Rightarrow> number list" where
  "writeAt xs i v =
     (if i < length xs then xs[i := v] else xs @ replicate (i - length xs) NaN @ [v])"

section \<open>The differential codec\<close>

text \<open>
  \<^verbatim>\<open>diffDecodeArray\<close> and \<^verbatim>\<open>diffEncodeArray\<close> are imported from \<^verbatim>\<open>./math\<close>, which is
  not among the sources. The decoder, on which every runtime track is built, follows
  section 4.1 of the specification, which gives it as \<^verbatim>\<open>decode(values, scale = 1)\<close>; the
  callers in this file pass the default explicitly. The encoder and its two callers,
  \<^verbatim>\<open>diffEncodeTrack\<close> and \<^verbatim>\<open>diffEncodeAirspaces\<close>, are left out: section 4.1 describes
  two disciplines for the encoder (deltas of the original values that are then rounded,
  and an error that does not accumulate along the array) without choosing one, and gives
  its third parameter as a rounding flag where the comment in \<^verbatim>\<open>diffEncodeAirspaces\<close>
  speaks of signed values.
\<close>

text \<open>
  Modelled from the spec: \<^verbatim>\<open>diffDecodeArray\<close> of \<^verbatim>\<open>./math\<close>. It reconstructs the running
  sum of the stored deltas, then divides by \<^verbatim>\<open>scale\<close>: element \<open>i\<close> is the sum of the
  stored deltas up to \<open>i\<close>, over \<^verbatim>\<open>scale\<close>. \<open>decodeSums\<close> is the elements after the
  first, given the sum before them.
\<close>

fun decodeSums :: "number \<Rightarrow> number \<Rightarrow> number list \<Rightarrow> number list" where
  "decodeSums scale value [] = []"
| "decodeSums scale value (d # ds) =
     js_div (js_add value d) scale # decodeSums scale (js_add value d) ds"

definition diffDecodeArray :: "number list \<Rightarrow> number \<Rightarrow> number list" where
  "diffDecodeArray values scale =
     (case values of
        [] \<Rightarrow> []
      | d # ds \<Rightarrow> js_div d scale # decodeSums scale d ds)"

section \<open>Tracks\<close>

record LatLon =
  lat :: number
  lon :: number

text \<open>
  Modelled from the spec: the types \<^verbatim>\<open>protos.Track\<close>, \<^verbatim>\<open>protos.GroundAltitude\<close> and
  \<^verbatim>\<open>protos.Airspaces\<close> are declared in \<^verbatim>\<open>../protos/track\<close>, which is not among the
  sources. The records have the fields this file reads: the four arrays of a trajectory
  and the pilot, the encoded ground altitudes, and the entry and exit times of the
  airspace crossings. \<^verbatim>\<open>addGroundAltitude\<close> tests \<^verbatim>\<open>Array.isArray(altitudes)\<close>, so
  \<open>altitudes\<close> may be absent. The descriptive fields of the airspaces, which pass through
  the codec unchanged, are the field \<open>static\<close>.
\<close>

record Track =
  pilot :: string
  lat :: "number list"
  lon :: "number list"
  alt :: "number list"
  timeSec :: "number list"

record GroundAltitude =
  altitudes :: "number list option"

record Airspaces =
  startSec :: "number list"
  endSec :: "number list"
  static :: "string list"

record RuntimeTrack =
  id' :: string
  isPostProcessed :: bool
  name :: string
  lat :: "number list"
  lon :: "number list"
  lookAtLat :: "number list"
  lookAtLon :: "number list"
  alt :: "number list"
  gndAlt :: "number list"
  vx :: "number list"
  vz :: "number list"
  timeSec :: "number list"
  heading :: "number list"
  maxAlt :: number
  minAlt :: number
  maxTimeSec :: number
  minTimeSec :: number
  maxLat :: number
  minLat :: number
  maxLon :: number
  minLon :: number
  maxVx :: number
  minVx :: number
  maxVz :: number
  minVz :: number
  maxDistance :: number
  airspaces :: "Airspaces option"

subsection \<open>Track ids\<close>

text \<open>
  Group ids and indices are integer-valued numbers, modelled by \<open>int\<close>. A template
  literal prints a number with \<^verbatim>\<open>Number::toString\<close>: a minus sign for a negative number,
  then the decimal digits below \<open>10\<^sup>2\<^sup>1\<close> and the exponential notation
  (\<^verbatim>\<open>1e+21\<close>, \<^verbatim>\<open>1.5e+21\<close>) from there on. The digits are those of the integer itself;
  a double above \<open>2\<^sup>5\<^sup>3\<close> prints the shortest digits that identify it, followed by
  zeros, which has the same shape.
\<close>

definition digitChar :: "nat \<Rightarrow> char" where
  "digitChar d = ''0123456789'' ! d"

fun decimal :: "nat \<Rightarrow> string" where
  "decimal n = (if n < 10 then [digitChar n] else decimal (n div 10) @ [digitChar (n mod 10)])"

declare decimal.simps [simp del]

definition exponential :: "nat \<Rightarrow> string" where
  "exponential n =
     (let digits = decimal n;
          mantissa = rev (dropWhile (\<lambda>c. c = CHR ''0'') (rev digits))
      in (case mantissa of
            [] \<Rightarrow> []
          | [c] \<Rightarrow> [c]
          | c # cs \<Rightarrow> c # CHR ''.'' # cs)
         @ ''e+'' @ decimal (length digits - 1))"

definition Number_toString :: "int \<Rightarrow> string" where
  "Number_toString n =
     (if n < 0 then CHR ''-'' # (if - n < 10 ^ 21 then decimal (nat (- n)) else exponential (nat (- n)))
      else if n < 10 ^ 21 then decimal (nat n) else exponential (nat n))"

definition createTrackId :: "int \<Rightarrow> int \<Rightarrow> string" where
  "createTrackId groupId groupIndex = Number_toString groupId @ ''-'' @ Number_toString groupIndex"

text \<open>
  \<^verbatim>\<open>trackId.match(/^(\d+)-/)\<close>: the group \<^verbatim>\<open>(\d+)\<close> is greedy, and giving back a digit
  leaves a digit where the \<^verbatim>\<open>-\<close> must be, so the match is the whole leading run of
  digits, and it must be followed by \<^verbatim>\<open>-\<close>. \<^verbatim>\<open>Number\<close> of a string of digits is its
  decimal value.
\<close>

definition isDigit :: "char \<Rightarrow> bool" where
  "isDigit c = (c \<in> set ''0123456789'')"

definition digitValue :: "char \<Rightarrow> nat" where
  "digitValue c = length (takeWhile (\<lambda>d. d \<noteq> c) ''0123456789'')"

definition Number_ofDigits :: "string \<Rightarrow> int" where
  "Number_ofDigits ds = int (foldl (\<lambda>n c. 10 * n + digitValue c) 0 ds)"

definition match_groupId :: "string \<Rightarrow> string option" where
  "match_groupId trackId =
     (let digits = takeWhile isDigit trackId
      in if digits \<noteq> [] \<and> take 1 (dropWhile isDigit trackId) = ''-'' then Some digits else None)"

definition extractGroupId :: "string \<Rightarrow> int" where
  "extractGroupId trackId =
     (case match_groupId trackId of Some digits \<Rightarrow> Number_ofDigits digits | None \<Rightarrow> - 1)"

subsection \<open>Differential decoding of a track\<close>

definition diffDecodeTrack :: "Track \<Rightarrow> Track" where
  "diffDecodeTrack track =
     (let lon' = diffDecodeArray (Track.lon track) (Num 100000);
          lat' = diffDecodeArray (Track.lat track) (Num 100000);
          timeSec' = diffDecodeArray (Track.timeSec track) (Num 1);
          alt' = diffDecodeArray (Track.alt track) (Num 1)
      in track\<lparr>Track.lat := lat', Track.lon := lon', Track.alt := alt', Track.timeSec := timeSec'\<rparr>)"

definition diffDecodeAirspaces :: "Airspaces \<Rightarrow> Airspaces" where
  "diffDecodeAirspaces asp =
     asp\<lparr>startSec := diffDecodeArray (startSec asp) (Num 1),
         endSec := diffDecodeArray (endSec asp) (Num 1)\<rparr>"

section \<open>Speeds\<close>

text \<open>
  The averaging loop of \<^verbatim>\<open>protoToRuntimeTrack\<close> and of \<^verbatim>\<open>computeVerticalSpeed\<close>:
  \<^verbatim>\<open>
  for (let avg = 1; i + avg < trackLen && avg < cap; avg++) {
    distance += steps[i];
    timeSec += deltaSeconds[i];
    if (timeSec > limit) break;
  }
  \<close>
  with \<open>cap = 65\<close>, \<open>limit = 60\<close> for the horizontal speed and \<open>cap = 35\<close>, \<open>limit = 30\<close>
  for the vertical speed. The function returns \<open>distance\<close> and \<open>timeSec\<close> as the loop
  leaves them.
\<close>

function averagingLoop ::
  "nat \<Rightarrow> number \<Rightarrow> nat \<Rightarrow> number list \<Rightarrow> number list \<Rightarrow> nat \<Rightarrow> nat \<Rightarrow> number \<Rightarrow> number
     \<Rightarrow> number \<times> number" where
  "averagingLoop cap limit trackLen steps deltaSeconds i avg distance timeSec' =
     (if i + avg < trackLen \<and> avg < cap then
        (let distance2 = js_add distance (readAt steps i);
             timeSec2 = js_add timeSec' (readAt deltaSeconds i)
         in if js_gt timeSec2 limit then (distance2, timeSec2)
            else averagingLoop cap limit trackLen steps deltaSeconds i (Suc avg) distance2 timeSec2)
      else (distance, timeSec'))"
  by pat_completeness auto
termination
  by (relation "measure (\<lambda>(cap, limit, trackLen, steps, deltaSeconds, i, avg, distance, t). cap - avg)")
     auto

declare averagingLoop.simps [simp del]

text \<open>The first loop of \<^verbatim>\<open>computeVerticalSpeed\<close>; it returns \<open>distZ\<close> and \<open>deltaSec\<close>.\<close>

definition verticalSteps :: "number list \<Rightarrow> number list \<Rightarrow> number list \<times> number list" where
  "verticalSteps alt' timeSec' =
     fold (\<lambda>i (distZ, deltaSec).
             (writeAt distZ i (js_sub (readAt alt' i) (readAt alt' (i - 1))),
              writeAt deltaSec i (js_sub (readAt timeSec' i) (readAt timeSec' (i - 1)))))
          [1..<length alt'] ([Num 0], [Num 0])"

definition computeVerticalSpeed :: "number list \<Rightarrow> number list \<Rightarrow> number list" where
  "computeVerticalSpeed alt' timeSec' =
     (let trackLen = length alt';
          (distZ, deltaSec) = verticalSteps alt' timeSec'
      in map (\<lambda>i. let (distance, timeSec2) =
                        averagingLoop 35 (Num 30) trackLen distZ deltaSec i 1 (Num 0) (Num 0)
                  in if js_gt timeSec2 (Num 0) then toFixed1 (js_div distance timeSec2) else Num 0)
             [0..<trackLen])"

text \<open>
  The first loop of \<^verbatim>\<open>protoToRuntimeTrack\<close>; it returns \<open>distX\<close>, \<open>distZ\<close> and
  \<open>deltaSeconds\<close>. \<^verbatim>\<open>getDistance\<close> comes from the library \<^verbatim>\<open>geolib\<close> and is a parameter,
  a function from two points to a number. This is the library on a trajectory whose
  arrays have one length, where every point handed to it has its two coordinates. On a
  trajectory whose \<open>lon\<close> is shorter than its \<open>lat\<close> the source hands the library a point
  whose longitude is \<^verbatim>\<open>undefined\<close>, which the library rejects with an exception; the
  point below has \<^verbatim>\<open>NaN\<close> there, and the call has no such failure. The properties of
  the horizontal speed and of the groups are therefore stated for trajectories whose
  arrays have one length.
\<close>

definition latLonAt :: "Track \<Rightarrow> nat \<Rightarrow> LatLon" where
  "latLonAt track i =
     \<lparr>LatLon.lat = readAt (Track.lat track) i, LatLon.lon = readAt (Track.lon track) i\<rparr>"

definition horizontalSteps ::
  "(LatLon \<Rightarrow> LatLon \<Rightarrow> number) \<Rightarrow> Track \<Rightarrow> number list \<times> number list \<times> number list" where
  "horizontalSteps getDistance track =
     (let (previousLatLon, distX, distZ, deltaSeconds) =
            fold (\<lambda>i (previousLatLon, distX, distZ, deltaSeconds).
                    let currentLatLon = latLonAt track i
                    in (currentLatLon,
                        writeAt distX i (getDistance previousLatLon currentLatLon),
                        writeAt distZ i
                          (js_sub (readAt (Track.alt track) i) (readAt (Track.alt track) (i - 1))),
                        writeAt deltaSeconds i
                          (js_sub (readAt (Track.timeSec track) i)
                             (readAt (Track.timeSec track) (i - 1)))))
                 [1..<length (Track.lat track)]
                 (latLonAt track 0, [Num 0], [Num 0], [Num 0])
      in (distX, distZ, deltaSeconds))"

text \<open>The second loop of \<^verbatim>\<open>protoToRuntimeTrack\<close>; it returns \<open>vx\<close>.\<close>

definition horizontalSpeed :: "nat \<Rightarrow> number list \<Rightarrow> number list \<Rightarrow> number list" where
  "horizontalSpeed trackLen distX deltaSeconds =
     map (\<lambda>i. let (distance, timeSec2) =
                    averagingLoop 65 (Num 60) trackLen distX deltaSeconds i 1 (Num 0) (Num 0)
              in if js_gt timeSec2 (Num 0)
                 then Math_round (js_div (js_mul (toDouble (36 / 10)) distance) timeSec2)
                 else Num 0)
         [0..<trackLen]"

definition protoToRuntimeTrack ::
  "(LatLon \<Rightarrow> LatLon \<Rightarrow> number) \<Rightarrow> string \<Rightarrow> Track \<Rightarrow> bool \<Rightarrow> RuntimeTrack" where
  "protoToRuntimeTrack getDistance trackId differentialTrack postProcessed =
     (let track = diffDecodeTrack differentialTrack;
          trackLen = length (Track.lat track);
          (distX, distZ, deltaSeconds) = horizontalSteps getDistance track;
          vx' = horizontalSpeed trackLen distX deltaSeconds;
          vz' = computeVerticalSpeed (Track.alt track) (Track.timeSec track)
      in \<lparr>id' = trackId,
          isPostProcessed = postProcessed,
          name = pilot track,
          RuntimeTrack.lat = Track.lat track,
          RuntimeTrack.lon = Track.lon track,
          lookAtLat = Track.lat track,
          lookAtLon = Track.lon track,
          RuntimeTrack.alt = Track.alt track,
          gndAlt = replicate trackLen (Num 0),
          vx = vx',
          vz = vz',
          RuntimeTrack.timeSec = Track.timeSec track,
          heading = replicate trackLen (Num 0),
          maxAlt = Math_max (Track.alt track),
          minAlt = Math_min (Track.alt track),
          maxTimeSec = Math_max (Track.timeSec track),
          minTimeSec = Math_min (Track.timeSec track),
          maxLat = Math_max (Track.lat track),
          minLat = Math_min (Track.lat track),
          maxLon = Math_max (Track.lon track),
          minLon = Math_min (Track.lon track),
          maxVx = Math_max vx',
          minVx = Math_min vx',
          maxVz = Math_max vz',
          minVz = Math_min vz',
          maxDistance = Math_max distX,
          airspaces = None\<rparr>)"

section \<open>Overlays and groups\<close>

text \<open>
  \<^verbatim>\<open>createRuntimeTracks\<close> hands \<^verbatim>\<open>rtTracks[i]\<close> to the two merge functions, which is
  \<^verbatim>\<open>undefined\<close> when the group has no track at \<open>i\<close>: their track argument is an option,
  and reading or writing a property of \<^verbatim>\<open>undefined\<close> is the \<^verbatim>\<open>TypeError\<close> that
  JavaScript throws. The functions return the track as they leave it.
\<close>

datatype error = TypeError

definition addGroundAltitude ::
  "RuntimeTrack option \<Rightarrow> GroundAltitude \<Rightarrow> error + RuntimeTrack option" where
  "addGroundAltitude track gndAlt' =
     (case altitudes gndAlt' of
        None \<Rightarrow> Inr track
      | Some altitudes' \<Rightarrow>
          (case track of
             None \<Rightarrow> Inl TypeError
           | Some t \<Rightarrow>
               if length altitudes' = length (RuntimeTrack.lat t)
               then Inr (Some (t\<lparr>gndAlt := diffDecodeArray altitudes' (Num 1)\<rparr>))
               else Inr (Some t)))"

definition addAirspaces ::
  "RuntimeTrack option \<Rightarrow> Airspaces \<Rightarrow> error + RuntimeTrack option" where
  "addAirspaces track airspaces' =
     (case track of
        None \<Rightarrow> Inl TypeError
      | Some t \<Rightarrow> Inr (Some (t\<lparr>airspaces := Some (diffDecodeAirspaces airspaces')\<rparr>)))"

text \<open>
  Modelled from the spec: \<^verbatim>\<open>protos.MetaTrackGroup\<close>, declared in \<^verbatim>\<open>../protos/track\<close>,
  after the deserialization layer has decoded it. A group has an id, the number of
  post-processing passes, and three optional containers; each holds the list that
  \<^verbatim>\<open>fromBinary\<close> reads from it (\<^verbatim>\<open>trackGroup.tracks\<close>, \<^verbatim>\<open>altGroup.groundAltitudes\<close>,
  \<^verbatim>\<open>airspacesGroup.airspaces\<close>), and is absent when the binary field is.
\<close>

record MetaTrackGroup =
  id' :: int
  numPostprocess :: int
  trackGroupBin :: "Track list option"
  groundAltitudeGroupBin :: "GroundAltitude list option"
  airspacesGroupBin :: "Airspaces list option"

definition elementAt :: "RuntimeTrack list \<Rightarrow> nat \<Rightarrow> RuntimeTrack option" where
  "elementAt rtTracks i = (if i < length rtTracks then Some (rtTracks ! i) else None)"

fun mutated :: "RuntimeTrack list \<Rightarrow> nat \<Rightarrow> RuntimeTrack option \<Rightarrow> RuntimeTrack list" where
  "mutated rtTracks i None = rtTracks"
| "mutated rtTracks i (Some t) = rtTracks[i := t]"

text \<open>\<^verbatim>\<open>overlays.forEach((overlay, i) => merge(rtTracks[i], overlay))\<close>, from index \<open>i\<close> on.\<close>

fun forEachOverlay ::
  "(RuntimeTrack option \<Rightarrow> 'a \<Rightarrow> error + RuntimeTrack option) \<Rightarrow> 'a list \<Rightarrow> nat
     \<Rightarrow> RuntimeTrack list \<Rightarrow> error + RuntimeTrack list" where
  "forEachOverlay merge [] i rtTracks = Inr rtTracks"
| "forEachOverlay merge (overlay # overlays) i rtTracks =
     (case merge (elementAt rtTracks i) overlay of
        Inl e \<Rightarrow> Inl e
      | Inr t \<Rightarrow> forEachOverlay merge overlays (Suc i) (mutated rtTracks i t))"

text \<open>The body of \<^verbatim>\<open>metaGroups.forEach\<close>: the runtime tracks of one group.\<close>

definition groupRuntimeTracks ::
  "(LatLon \<Rightarrow> LatLon \<Rightarrow> number) \<Rightarrow> MetaTrackGroup \<Rightarrow> error + RuntimeTrack list" where
  "groupRuntimeTracks getDistance metaGroup =
     (let rtTracks =
            (case trackGroupBin metaGroup of
               None \<Rightarrow> []
             | Some tracks \<Rightarrow>
                 map (\<lambda>(i, protoTrack).
                        protoToRuntimeTrack getDistance
                          (createTrackId (MetaTrackGroup.id' metaGroup) (int i)) protoTrack
                          (0 < numPostprocess metaGroup))
                     (enumerate 0 tracks))
      in case (case groundAltitudeGroupBin metaGroup of
                 None \<Rightarrow> Inr rtTracks
               | Some groundAltitudes \<Rightarrow> forEachOverlay addGroundAltitude groundAltitudes 0 rtTracks) of
           Inl e \<Rightarrow> Inl e
         | Inr rtTracks2 \<Rightarrow>
             (case airspacesGroupBin metaGroup of
                None \<Rightarrow> Inr rtTracks2
              | Some airspaces' \<Rightarrow> forEachOverlay addAirspaces airspaces' 0 rtTracks2))"

fun createRuntimeTracksFrom ::
  "(LatLon \<Rightarrow> LatLon \<Rightarrow> number) \<Rightarrow> RuntimeTrack list \<Rightarrow> MetaTrackGroup list
     \<Rightarrow> error + RuntimeTrack list" where
  "createRuntimeTracksFrom getDistance runtimeTracks [] = Inr runtimeTracks"
| "createRuntimeTracksFrom getDistance runtimeTracks (metaGroup # metaGroups) =
     (case groupRuntimeTracks getDistance metaGroup of
        Inl e \<Rightarrow> Inl e
      | Inr rtTracks \<Rightarrow>
          createRuntimeTracksFrom getDistance (runtimeTracks @ rtTracks) metaGroups)"

definition createRuntimeTracks ::
  "(LatLon \<Rightarrow> LatLon \<Rightarrow> number) \<Rightarrow> MetaTrackGroup list \<Rightarrow> error + RuntimeTrack list" where
  "createRuntimeTracks getDistance metaGroups = createRuntimeTracksFrom getDistance [] metaGroups"

section \<open>Notions used to state the properties\<close>

subsection \<open>The averaging window in closed form\<close>

text \<open>
  The step values of a fix \<open>i\<close>: the distance from fix \<open>i - 1\<close> to fix \<open>i\<close>, and the
  difference of an array between these two fixes; both are 0 at the first fix.
\<close>

definition stepDistance :: "(LatLon \<Rightarrow> LatLon \<Rightarrow> number) \<Rightarrow> Track \<Rightarrow> nat \<Rightarrow> number" where
  "stepDistance getDistance track i =
     (if i = 0 then Num 0 else getDistance (latLonAt track (i - 1)) (latLonAt track i))"

definition stepDifference :: "number list \<Rightarrow> nat \<Rightarrow> number" where
  "stepDifference values i =
     (if i = 0 then Num 0 else js_sub (readAt values i) (readAt values (i - 1)))"

text \<open>
  \<open>addedTimes k x\<close> is the running total after \<open>x\<close> has been added \<open>k\<close> times to 0.
  A window that may take \<open>m\<close> steps, adding the step time \<open>t\<close> at each, takes
  \<open>windowSteps m t limit\<close> of them: it stops at the first step after which the total
  time exceeds \<open>limit\<close>. At fix \<open>i\<close> of \<open>N\<close>, \<open>avg\<close> ranges from 1 while \<open>i + avg < N\<close>
  and \<open>avg < cap\<close>, which allows \<open>min (N - 1 - i) (cap - 1)\<close> steps.
\<close>

definition addedTimes :: "nat \<Rightarrow> number \<Rightarrow> number" where
  "addedTimes k x = ((\<lambda>total. js_add total x) ^^ k) (Num 0)"

definition windowSteps :: "nat \<Rightarrow> number \<Rightarrow> number \<Rightarrow> nat" where
  "windowSteps m t limit =
     (case find (\<lambda>k. js_gt (addedTimes k t) limit) [1..<Suc m] of Some k \<Rightarrow> k | None \<Rightarrow> m)"

definition windowTotals ::
  "nat \<Rightarrow> number \<Rightarrow> nat \<Rightarrow> nat \<Rightarrow> number \<Rightarrow> number \<Rightarrow> number \<times> number" where
  "windowTotals cap limit N i d t =
     (let k = windowSteps (min (N - 1 - i) (cap - 1)) t limit
      in (addedTimes k d, addedTimes k t))"





subsection \<open>Finite and well-formed trajectories\<close>

definition finiteArray :: "number list \<Rightarrow> bool" where
  "finiteArray xs = list_all isFinite xs"

definition finiteTrack :: "Track \<Rightarrow> bool" where
  "finiteTrack track =
     (finiteArray (Track.lat track) \<and> finiteArray (Track.lon track) \<and>
      finiteArray (Track.alt track) \<and> finiteArray (Track.timeSec track))"

text \<open>The four arrays of a trajectory have one length, the trajectory length.\<close>

definition equalLengths :: "Track \<Rightarrow> bool" where
  "equalLengths track =
     (length (Track.lon track) = length (Track.lat track) \<and>
      length (Track.alt track) = length (Track.lat track) \<and>
      length (Track.timeSec track) = length (Track.lat track))"

definition finitePoint :: "LatLon \<Rightarrow> bool" where
  "finitePoint point = (isFinite (LatLon.lat point) \<and> isFinite (LatLon.lon point))"

text \<open>The distance between two points with finite coordinates is a finite number.\<close>

definition finiteDistances :: "(LatLon \<Rightarrow> LatLon \<Rightarrow> number) \<Rightarrow> bool" where
  "finiteDistances getDistance =
     (\<forall>a b. finitePoint a \<and> finitePoint b \<longrightarrow> isFinite (getDistance a b))"

subsection \<open>Extrema and lengths\<close>

definition isMaximum :: "number \<Rightarrow> number list \<Rightarrow> bool" where
  "isMaximum m xs = (m \<in> set xs \<and> list_all (\<lambda>x. \<not> js_gt x m) xs)"

definition isMinimum :: "number \<Rightarrow> number list \<Rightarrow> bool" where
  "isMinimum m xs = (m \<in> set xs \<and> list_all (\<lambda>x. \<not> js_gt m x) xs)"

definition derivedLengths :: "nat \<Rightarrow> RuntimeTrack \<Rightarrow> bool" where
  "derivedLengths N t =
     (length (RuntimeTrack.lat t) = N \<and> length (vx t) = N \<and> length (vz t) = N \<and>
      length (gndAlt t) = N \<and> length (heading t) = N \<and>
      length (lookAtLat t) = N \<and> length (lookAtLon t) = N)"

subsection \<open>Groups\<close>

definition trackCount :: "MetaTrackGroup \<Rightarrow> nat" where
  "trackCount metaGroup = (case trackGroupBin metaGroup of None \<Rightarrow> 0 | Some tracks \<Rightarrow> length tracks)"

text \<open>Every trajectory of the group has arrays of one length.\<close>

definition tracksOfOneLength :: "MetaTrackGroup \<Rightarrow> bool" where
  "tracksOfOneLength metaGroup =
     (case trackGroupBin metaGroup of None \<Rightarrow> True | Some tracks \<Rightarrow> list_all equalLengths tracks)"

text \<open>
  The tracks of a group before any overlay is merged: one per decoded trajectory, its
  id composed from the group id and the index in the group, post-processed when the
  group counts at least one post-processing pass.
\<close>

definition builtTracks :: "(LatLon \<Rightarrow> LatLon \<Rightarrow> number) \<Rightarrow> MetaTrackGroup \<Rightarrow> RuntimeTrack list" where
  "builtTracks getDistance metaGroup =
     (case trackGroupBin metaGroup of
        None \<Rightarrow> []
      | Some tracks \<Rightarrow>
          map (\<lambda>i. protoToRuntimeTrack getDistance
                     (createTrackId (MetaTrackGroup.id' metaGroup) (int i)) (tracks ! i)
                     (0 < numPostprocess metaGroup))
              [0..<length tracks])"

text \<open>A track without what the overlays may have merged into it.\<close>

definition withoutOverlays :: "RuntimeTrack \<Rightarrow> RuntimeTrack" where
  "withoutOverlays t = t\<lparr>gndAlt := [], airspaces := None\<rparr>"

text \<open>
  A group has a merge past its tracks when, at an index where it has no track, its
  ground altitude overlay has an entry whose \<open>altitudes\<close> is an array, or its airspaces
  overlay has an entry.
\<close>

definition mergePastTracks :: "MetaTrackGroup \<Rightarrow> bool" where
  "mergePastTracks metaGroup =
     ((case groundAltitudeGroupBin metaGroup of
         None \<Rightarrow> False
       | Some groundAltitudes \<Rightarrow>
           list_ex (\<lambda>gndAlt'. altitudes gndAlt' \<noteq> None) (drop (trackCount metaGroup) groundAltitudes)) \<or>
      (case airspacesGroupBin metaGroup of
         None \<Rightarrow> False
       | Some airspaces' \<Rightarrow> drop (trackCount metaGroup) airspaces' \<noteq> []))"

text \<open>Each overlay of the group has at most as many entries as the group has tracks.\<close>

definition overlaysWithinTracks :: "MetaTrackGroup \<Rightarrow> bool" where
  "overlaysWithinTracks metaGroup =
     ((case groundAltitudeGroupBin metaGroup of
         None \<Rightarrow> True
       | Some groundAltitudes \<Rightarrow> length groundAltitudes \<le> trackCount metaGroup) \<and>
      (case airspacesGroupBin metaGroup of
         None \<Rightarrow> True
       | Some airspaces' \<Rightarrow> length airspaces' \<le> trackCount metaGroup))"

subsection \<open>Sample inputs\<close>

text \<open>
  A stand-in for \<^verbatim>\<open>getDistance\<close> (whole metres, 111 km to the degree along both axes),
  the four-fix trajectory of the specification's end-to-end scenario as it is encoded and
  as it is decoded, and a group that holds it with a ground altitude overlay.
\<close>

definition sampleDistance :: "LatLon \<Rightarrow> LatLon \<Rightarrow> number" where
  "sampleDistance a b =
     (case (LatLon.lat a, LatLon.lon a, LatLon.lat b, LatLon.lon b) of
        (Num la, Num lo, Num lb, Num lob) \<Rightarrow>
          Num (of_int \<lfloor>111000 * (\<bar>lb - la\<bar> + \<bar>lob - lo\<bar>) + 1 / 2\<rfloor>)
      | _ \<Rightarrow> NaN)"

definition sampleTrack :: Track where
  "sampleTrack =
     \<lparr>pilot = ''pilot'',
      Track.lat = [Num 10, Num 10, Num 10, Num 10],
      Track.lon = [Num 0, toDouble (1 / 1000), toDouble (2 / 1000), toDouble (3 / 1000)],
      Track.alt = [Num 100, Num 110, Num 105, Num 105],
      Track.timeSec = [Num 0, Num 10, Num 20, Num 30]\<rparr>"

definition sampleEncoded :: Track where
  "sampleEncoded =
     \<lparr>pilot = ''pilot'',
      Track.lat = [Num 1000000, Num 0, Num 0, Num 0],
      Track.lon = [Num 0, Num 100, Num 100, Num 100],
      Track.alt = [Num 100, Num 10, Num (- 5), Num 0],
      Track.timeSec = [Num 0, Num 10, Num 10, Num 10]\<rparr>"

text \<open>The same trajectory with the clock standing still between the second and third fix.\<close>

definition pausedEncoded :: Track where
  "pausedEncoded =
     \<lparr>pilot = ''pilot'',
      Track.lat = [Num 1000000, Num 0, Num 0, Num 0],
      Track.lon = [Num 0, Num 100, Num 100, Num 100],
      Track.alt = [Num 100, Num 10, Num (- 5), Num 0],
      Track.timeSec = [Num 0, Num 10, Num 0, Num 10]\<rparr>"


definition sampleGroundAltitude :: GroundAltitude where
  "sampleGroundAltitude = \<lparr>altitudes = Some [Num 90, Num 5, Num (- 10), Num 0]\<rparr>"

definition sampleGroup :: MetaTrackGroup where
  "sampleGroup =
     \<lparr>MetaTrackGroup.id' = 42,
      numPostprocess = 1,
      trackGroupBin = Some [sampleEncoded],
      groundAltitudeGroupBin = Some [sampleGroundAltitude],
      airspacesGroupBin = None\<rparr>"

text \<open>
  Three groups without a trajectory container: one without overlays, one whose ground
  altitude overlay has an entry with altitudes, one whose entry has none.
\<close>

definition absentGroup :: MetaTrackGroup where
  "absentGroup =
     \<lparr>MetaTrackGroup.id' = 41,
      numPostprocess = 0,
      trackGroupBin = None,
      groundAltitudeGroupBin = None,
      airspacesGroupBin = None\<rparr>"

definition orphanGroup :: MetaTrackGroup where
  "orphanGroup =
     \<lparr>MetaTrackGroup.id' = 43,
      numPostprocess = 0,
      trackGroupBin = None,
      groundAltitudeGroupBin = Some [sampleGroundAltitude],
      airspacesGroupBin = None\<rparr>"

definition silentGroup :: MetaTrackGroup where
  "silentGroup =
     \<lparr>MetaTrackGroup.id' = 44,
      numPostprocess = 0,
      trackGroupBin = None,
      groundAltitudeGroupBin = Some [\<lparr>altitudes = None\<rparr>],
      airspacesGroupBin = None\<rparr>"

section \<open>Rounding\<close>

lemmas toDouble_eval =
  toDouble_def nearestDouble_def roundToMultiple_def roundHalfEven_def exponentOf_def pow2_def
  expUp.simps expDown.simps

lemma toDouble_0 [simp]: "toDouble 0 = Num 0"
  by (simp add: toDouble_def)

lemma pow2_positive: "0 < pow2 k"
  by (simp add: pow2_def)

lemma roundHalfEven_not_negative:
  assumes "0 \<le> q"
  shows "0 \<le> roundHalfEven q"
proof -
  from assms have "0 \<le> \<lfloor>q\<rfloor>" by simp
  then show ?thesis by (simp add: roundHalfEven_def)
qed

lemma nearestDouble_not_negative:
  assumes "0 < a"
  shows "0 \<le> nearestDouble a"
proof -
  have "0 \<le> a / pow2 (exponentOf a - 52)"
    using assms pow2_positive [of "exponentOf a - 52"] by simp
  then have "0 \<le> roundHalfEven (a / pow2 (exponentOf a - 52))"
    by (rule roundHalfEven_not_negative)
  then show ?thesis
    using pow2_positive [of "exponentOf a - 52"]
    by (simp add: nearestDouble_def roundToMultiple_def)
qed

text \<open>Rounding keeps the sign: a result that is not positive rounds to one that is not.\<close>

lemma toDouble_not_positive:
  assumes "x \<le> 0"
  shows "\<not> js_gt (toDouble x) (Num 0)"
proof (cases "x = 0")
  case True
  then show ?thesis by simp
next
  case False
  with assms have "0 < - x" by simp
  from nearestDouble_not_negative [OF this] assms False show ?thesis
    by (simp add: toDouble_def)
qed

section \<open>Lengths\<close>

lemma length_decodeSums [simp]: "length (decodeSums scale v ds) = length ds"
  by (induction ds arbitrary: v) simp_all

lemma length_diffDecodeArray [simp]: "length (diffDecodeArray values scale) = length values"
  by (simp add: diffDecodeArray_def split: list.split)

lemma length_computeVerticalSpeed [simp]:
  "length (computeVerticalSpeed alt' timeSec') = length alt'"
  by (simp add: computeVerticalSpeed_def Let_def split: prod.split)

lemma length_horizontalSpeed [simp]:
  "length (horizontalSpeed trackLen distX deltaSeconds) = trackLen"
  by (simp add: horizontalSpeed_def)

lemma diffDecodeTrack_lengths [simp]:
  "length (Track.lat (diffDecodeTrack p)) = length (Track.lat p)"
  "length (Track.lon (diffDecodeTrack p)) = length (Track.lon p)"
  "length (Track.alt (diffDecodeTrack p)) = length (Track.alt p)"
  "length (Track.timeSec (diffDecodeTrack p)) = length (Track.timeSec p)"
  by (simp_all add: diffDecodeTrack_def Let_def)

lemma protoToRuntimeTrack_fields:
  "RuntimeTrack.lat (protoToRuntimeTrack gd tid p pp) = Track.lat (diffDecodeTrack p)"
  "RuntimeTrack.lon (protoToRuntimeTrack gd tid p pp) = Track.lon (diffDecodeTrack p)"
  "lookAtLat (protoToRuntimeTrack gd tid p pp) = Track.lat (diffDecodeTrack p)"
  "lookAtLon (protoToRuntimeTrack gd tid p pp) = Track.lon (diffDecodeTrack p)"
  "RuntimeTrack.alt (protoToRuntimeTrack gd tid p pp) = Track.alt (diffDecodeTrack p)"
  "RuntimeTrack.timeSec (protoToRuntimeTrack gd tid p pp) = Track.timeSec (diffDecodeTrack p)"
  "gndAlt (protoToRuntimeTrack gd tid p pp) = replicate (length (Track.lat p)) (Num 0)"
  "heading (protoToRuntimeTrack gd tid p pp) = replicate (length (Track.lat p)) (Num 0)"
  "vz (protoToRuntimeTrack gd tid p pp) =
     computeVerticalSpeed (Track.alt (diffDecodeTrack p)) (Track.timeSec (diffDecodeTrack p))"
  "RuntimeTrack.id' (protoToRuntimeTrack gd tid p pp) = tid"
  "isPostProcessed (protoToRuntimeTrack gd tid p pp) = pp"
  "name (protoToRuntimeTrack gd tid p pp) = pilot p"
  "airspaces (protoToRuntimeTrack gd tid p pp) = None"
  by (simp_all add: protoToRuntimeTrack_def Let_def diffDecodeTrack_def split: prod.split)

lemma length_vx_protoToRuntimeTrack:
  "length (vx (protoToRuntimeTrack gd tid p pp)) = length (Track.lat p)"
  by (simp add: protoToRuntimeTrack_def Let_def split: prod.split)

lemma derivedLengths_protoToRuntimeTrack:
  assumes "equalLengths p"
  shows "derivedLengths (length (Track.lat p)) (protoToRuntimeTrack gd tid p pp)"
  using assms
  by (simp add: derivedLengths_def equalLengths_def protoToRuntimeTrack_fields
        length_vx_protoToRuntimeTrack)

lemma addGroundAltitude_Some:
  "addGroundAltitude (Some track) gnd =
     Inr (Some (case altitudes gnd of
                  None \<Rightarrow> track
                | Some encoded \<Rightarrow>
                    if length encoded = length (RuntimeTrack.lat track)
                    then track\<lparr>gndAlt := diffDecodeArray encoded (Num 1)\<rparr>
                    else track))"
  by (simp add: addGroundAltitude_def split: option.split)

lemma derivedLengths_addGroundAltitude:
  assumes "derivedLengths N t"
  shows "\<exists>t'. addGroundAltitude (Some t) gnd = Inr (Some t') \<and> derivedLengths N t'"
  using assms by (auto simp: addGroundAltitude_Some derivedLengths_def split: option.split)

lemma derivedLengths_addAirspaces:
  assumes "derivedLengths N t"
  shows "\<exists>t'. addAirspaces (Some t) asp = Inr (Some t') \<and> derivedLengths N t'"
  using assms by (simp add: addAirspaces_def derivedLengths_def)

text \<open>
  C5. \<^verbatim>\<open>addGroundAltitude\<close> on a track overwrites \<open>gndAlt\<close> with the decoded altitudes
  when the encoded altitudes are an array of the length of the trajectory, and only
  then; when the array is absent or of another length it returns the whole track as it
  was and does not fail. On the track that \<^verbatim>\<open>protoToRuntimeTrack\<close> has just built, such
  a skip leaves \<open>gndAlt\<close> the placeholder of zeros.
\<close>

theorem addGroundAltitude_overwrites_or_skips:
  "addGroundAltitude (Some track) gnd =
     Inr (Some (case altitudes gnd of
                  None \<Rightarrow> track
                | Some encoded \<Rightarrow>
                    if length encoded = length (RuntimeTrack.lat track)
                    then track\<lparr>gndAlt := diffDecodeArray encoded (Num 1)\<rparr>
                    else track)) \<and>
   ((\<forall>encoded. altitudes gnd = Some encoded \<longrightarrow> length encoded \<noteq> length (Track.lat p)) \<longrightarrow>
      addGroundAltitude (Some (protoToRuntimeTrack getDistance trackId p postProcessed)) gnd
        = Inr (Some (protoToRuntimeTrack getDistance trackId p postProcessed)) \<and>
      gndAlt (protoToRuntimeTrack getDistance trackId p postProcessed)
        = replicate (length (Track.lat p)) (Num 0))"
proof (intro conjI impI)
  show "addGroundAltitude (Some track) gnd =
     Inr (Some (case altitudes gnd of
                  None \<Rightarrow> track
                | Some encoded \<Rightarrow>
                    if length encoded = length (RuntimeTrack.lat track)
                    then track\<lparr>gndAlt := diffDecodeArray encoded (Num 1)\<rparr>
                    else track))"
    by (cases "altitudes gnd") (simp_all add: addGroundAltitude_def)
next
  assume "\<forall>encoded. altitudes gnd = Some encoded \<longrightarrow> length encoded \<noteq> length (Track.lat p)"
  then show "addGroundAltitude (Some (protoToRuntimeTrack getDistance trackId p postProcessed)) gnd
        = Inr (Some (protoToRuntimeTrack getDistance trackId p postProcessed))"
    by (cases "altitudes gnd") (simp_all add: addGroundAltitude_def protoToRuntimeTrack_fields)
next
  show "gndAlt (protoToRuntimeTrack getDistance trackId p postProcessed)
        = replicate (length (Track.lat p)) (Num 0)"
    by (simp add: protoToRuntimeTrack_fields)
qed

theorem addGroundAltitude_overwrites_or_skips_witness:
  "length [Num 90, Num 5] \<noteq> length (Track.lat sampleEncoded) \<and>
   addGroundAltitude (Some (protoToRuntimeTrack sampleDistance ''42-0'' sampleEncoded True))
       \<lparr>altitudes = Some [Num 90, Num 5]\<rparr>
     = Inr (Some (protoToRuntimeTrack sampleDistance ''42-0'' sampleEncoded True)) \<and>
   gndAlt (protoToRuntimeTrack sampleDistance ''42-0'' sampleEncoded True)
     = [Num 0, Num 0, Num 0, Num 0] \<and>
   addGroundAltitude (Some (protoToRuntimeTrack sampleDistance ''42-0'' sampleEncoded True))
       sampleGroundAltitude
     = Inr (Some ((protoToRuntimeTrack sampleDistance ''42-0'' sampleEncoded True)
                    \<lparr>gndAlt := [Num 90, Num 95, Num 85, Num 85]\<rparr>))"
proof -
  have len: "length (Track.lat sampleEncoded) = 4"
    by (simp add: sampleEncoded_def)
  have skip: "\<forall>encoded. altitudes \<lparr>altitudes = Some [Num 90, Num 5]\<rparr> = Some encoded \<longrightarrow>
      length encoded \<noteq> length (Track.lat sampleEncoded)"
    by (simp add: len)
  have dec: "diffDecodeArray [Num 90, Num 5, Num (- 10), Num 0] (Num 1)
      = [Num 90, Num 95, Num 85, Num 85]"
    by (simp add: diffDecodeArray_def toDouble_eval)
  show ?thesis
    using skip len
      addGroundAltitude_overwrites_or_skips
        [of "protoToRuntimeTrack sampleDistance ''42-0'' sampleEncoded True"
            "\<lparr>altitudes = Some [Num 90, Num 5]\<rparr>" sampleEncoded sampleDistance "''42-0''" True]
      addGroundAltitude_overwrites_or_skips
        [of "protoToRuntimeTrack sampleDistance ''42-0'' sampleEncoded True"
            sampleGroundAltitude sampleEncoded sampleDistance "''42-0''" True]
    by (simp add: len dec sampleGroundAltitude_def protoToRuntimeTrack_fields
          eval_nat_numeral)
qed

text \<open>
  C7. For a trajectory whose four arrays have one length \<open>N\<close>, the arrays \<open>vx\<close>, \<open>vz\<close>,
  \<open>gndAlt\<close>, \<open>heading\<close>, \<open>lookAtLat\<close> and \<open>lookAtLon\<close> of the track that
  \<^verbatim>\<open>protoToRuntimeTrack\<close> builds have length \<open>N\<close>; and on any track whose derived arrays
  have length \<open>N\<close>, \<^verbatim>\<open>addGroundAltitude\<close> and \<^verbatim>\<open>addAirspaces\<close> succeed and return a
  track whose derived arrays have length \<open>N\<close>.
\<close>

theorem derived_arrays_have_trajectory_length:
  "(equalLengths p \<longrightarrow>
      derivedLengths (length (Track.lat p)) (protoToRuntimeTrack getDistance trackId p postProcessed)) \<and>
   (derivedLengths N t \<longrightarrow>
      (\<exists>t'. addGroundAltitude (Some t) gnd = Inr (Some t') \<and> derivedLengths N t') \<and>
      (\<exists>t'. addAirspaces (Some t) asp = Inr (Some t') \<and> derivedLengths N t'))"
  using derivedLengths_protoToRuntimeTrack derivedLengths_addGroundAltitude
    derivedLengths_addAirspaces by blast

theorem derived_arrays_have_trajectory_length_witness:
  "equalLengths sampleEncoded \<and>
   derivedLengths 4 (protoToRuntimeTrack sampleDistance ''42-0'' sampleEncoded True) \<and>
   (\<exists>t'. addGroundAltitude (Some (protoToRuntimeTrack sampleDistance ''42-0'' sampleEncoded True))
            sampleGroundAltitude = Inr (Some t') \<and> derivedLengths 4 t') \<and>
   (\<exists>t'. addAirspaces (Some (protoToRuntimeTrack sampleDistance ''42-0'' sampleEncoded True))
            \<lparr>startSec = [Num 5], endSec = [Num 9], static = [''CTR'']\<rparr> = Inr (Some t') \<and>
          derivedLengths 4 t')"
proof -
  have eq: "equalLengths sampleEncoded"
    by (simp add: equalLengths_def sampleEncoded_def)
  have len: "length (Track.lat sampleEncoded) = 4"
    by (simp add: sampleEncoded_def)
  show ?thesis
    using eq len
      derived_arrays_have_trajectory_length
        [of sampleEncoded sampleDistance "''42-0''" True 4
            "protoToRuntimeTrack sampleDistance ''42-0'' sampleEncoded True"
            sampleGroundAltitude "\<lparr>startSec = [Num 5], endSec = [Num 9], static = [''CTR'']\<rparr>"]
    by simp
qed

section \<open>Track ids\<close>

lemma digit_cases: "d < 10 \<Longrightarrow> d \<in> {0, 1, 2, 3, 4, 5, 6, 7, 8, 9 :: nat}"
  by auto

lemma digitValue_digitChar: "d < 10 \<Longrightarrow> digitValue (digitChar d) = d"
  by (drule digit_cases) (auto simp: digitValue_def digitChar_def)

lemma isDigit_digitChar: "d < 10 \<Longrightarrow> isDigit (digitChar d)"
  by (drule digit_cases) (auto simp: isDigit_def digitChar_def)

lemma decimal_digits: "list_all isDigit (decimal n)"
proof (induction n rule: decimal.induct)
  case (1 n)
  show ?case
  proof (cases "n < 10")
    case True
    then show ?thesis by (subst decimal.simps) (simp add: isDigit_digitChar)
  next
    case False
    with "1" show ?thesis by (subst decimal.simps) (simp add: isDigit_digitChar)
  qed
qed

lemma decimal_not_Nil: "decimal n \<noteq> []"
  by (subst decimal.simps) simp

lemma foldl_decimal: "foldl (\<lambda>n c. 10 * n + digitValue c) 0 (decimal n) = n"
proof (induction n rule: decimal.induct)
  case (1 n)
  show ?case
  proof (cases "n < 10")
    case True
    then show ?thesis by (subst decimal.simps) (simp add: digitValue_digitChar)
  next
    case False
    with "1" show ?thesis by (subst decimal.simps) (simp add: digitValue_digitChar)
  qed
qed

lemma Number_ofDigits_decimal: "Number_ofDigits (decimal n) = int n"
  by (simp add: Number_ofDigits_def foldl_decimal)

lemma not_isDigit_minus: "\<not> isDigit CHR ''-''"
  by (simp add: isDigit_def)

lemma match_groupId_digits:
  assumes "ds \<noteq> []" "list_all isDigit ds"
  shows "match_groupId (ds @ CHR ''-'' # rest) = Some ds"
proof -
  have "takeWhile isDigit (ds @ CHR ''-'' # rest) = ds"
    using assms(2) by (simp add: takeWhile_append2 list_all_iff not_isDigit_minus)
  moreover have "dropWhile isDigit (ds @ CHR ''-'' # rest) = CHR ''-'' # rest"
    using assms(2) by (simp add: dropWhile_append2 list_all_iff not_isDigit_minus)
  ultimately show ?thesis using assms(1) by (simp add: match_groupId_def)
qed

lemma match_groupId_SomeD:
  assumes "match_groupId s = Some ds"
  shows "ds \<noteq> [] \<and> list_all isDigit ds \<and> (\<exists>rest. s = ds @ CHR ''-'' # rest)"
proof -
  from assms have ds: "ds = takeWhile isDigit s" and ne: "ds \<noteq> []"
    and t: "take 1 (dropWhile isDigit s) = ''-''"
    by (auto simp: match_groupId_def Let_def split: if_splits)
  from t obtain rest where "dropWhile isDigit s = CHR ''-'' # rest"
    by (cases "dropWhile isDigit s") auto
  then have "s = ds @ CHR ''-'' # rest"
    using takeWhile_dropWhile_id [of isDigit s] ds by simp
  moreover have "list_all isDigit ds"
    unfolding ds list_all_iff by (auto dest: set_takeWhileD)
  ultimately show ?thesis using ne by blast
qed

lemma extractGroupId_printed:
  assumes "0 \<le> groupId" "groupId < 10 ^ 21"
  shows "extractGroupId (Number_toString groupId @ ''-'' @ suffix) = groupId"
proof -
  have "Number_toString groupId @ ''-'' @ suffix = decimal (nat groupId) @ CHR ''-'' # suffix"
    using assms by (simp add: Number_toString_def)
  then show ?thesis
    using assms(1)
    by (simp add: extractGroupId_def match_groupId_digits decimal_not_Nil decimal_digits
          Number_ofDigits_decimal)
qed

lemma extractGroupId_createTrackId:
  assumes "0 \<le> groupId" "groupId < 10 ^ 21"
  shows "extractGroupId (createTrackId groupId groupIndex) = groupId"
  unfolding createTrackId_def using assms by (rule extractGroupId_printed)

lemma extractGroupId_no_match:
  assumes "\<not> (\<exists>ds rest. ds \<noteq> [] \<and> list_all isDigit ds \<and> trackId = ds @ CHR ''-'' # rest)"
  shows "extractGroupId trackId = - 1"
proof (cases "match_groupId trackId")
  case None
  then show ?thesis by (simp add: extractGroupId_def)
next
  case (Some ds)
  from match_groupId_SomeD [OF this] assms show ?thesis by blast
qed

lemma extractGroupId_examples:
  "extractGroupId ''42-3'' = 42" "extractGroupId ''bogus'' = - 1"
  by (simp_all add: extractGroupId_def match_groupId_def isDigit_def Number_ofDigits_def
        digitValue_def)

text \<open>
  C8, as the claim states it, fails from \<open>10\<^sup>2\<^sup>1\<close> on: the template literal prints such a
  group id in exponential notation, which the pattern does not match.
\<close>

theorem extractGroupId_createTrackId_counterexample:
  "createTrackId (10 ^ 21) 0 = ''1e+21-0'' \<and>
   extractGroupId (createTrackId (10 ^ 21) 0) = - 1 \<and>
   extractGroupId (createTrackId (10 ^ 21) 0) \<noteq> 10 ^ 21"
  by (simp add: createTrackId_def Number_toString_def exponential_def decimal.simps digitChar_def
        extractGroupId_def match_groupId_def isDigit_def)

text \<open>
  C8, amended. For every group id from 0 to below \<open>10\<^sup>2\<^sup>1\<close> and every group index,
  \<^verbatim>\<open>extractGroupId\<close> of the composed track id is the group id, and so it is whatever
  follows the \<^verbatim>\<open>-\<close>; for every string that does not begin with a non-empty run of
  digits followed by \<^verbatim>\<open>-\<close>, \<^verbatim>\<open>extractGroupId\<close> is -1; \<^verbatim>\<open>extractGroupId("42-3")\<close> is 42
  and \<^verbatim>\<open>extractGroupId("bogus")\<close> is -1.
\<close>

theorem extractGroupId_inverts_createTrackId:
  "(0 \<le> groupId \<and> groupId < 10 ^ 21 \<longrightarrow>
      extractGroupId (createTrackId groupId groupIndex) = groupId \<and>
      extractGroupId (Number_toString groupId @ ''-'' @ suffix) = groupId) \<and>
   ((\<nexists>ds rest. ds \<noteq> [] \<and> list_all isDigit ds \<and> trackId = ds @ CHR ''-'' # rest) \<longrightarrow>
      extractGroupId trackId = - 1) \<and>
   extractGroupId ''42-3'' = 42 \<and> extractGroupId ''bogus'' = - 1"
  using extractGroupId_createTrackId extractGroupId_printed extractGroupId_no_match
    extractGroupId_examples
  by blast

theorem extractGroupId_inverts_createTrackId_witness:
  "extractGroupId (createTrackId 1234567 8) = 1234567 \<and>
   extractGroupId (Number_toString 1234567 @ ''-'' @ ''NaN'') = 1234567 \<and>
   extractGroupId ''12x-3'' = - 1"
proof -
  have "\<nexists>ds rest. ds \<noteq> [] \<and> list_all isDigit ds \<and> ''12x-3'' = ds @ CHR ''-'' # rest"
    by (auto simp: Cons_eq_append_conv isDigit_def)
  then show ?thesis
    using extractGroupId_inverts_createTrackId [of 1234567 8 "''NaN''" "''12x-3''"] by simp
qed

section \<open>The averaging window\<close>

lemma addedTimes_0 [simp]: "addedTimes 0 x = Num 0"
  by (simp add: addedTimes_def)

lemma addedTimes_Suc: "addedTimes (Suc k) x = js_add (addedTimes k x) x"
  by (simp add: addedTimes_def)

lemma addedTimes_zero [simp]: "addedTimes k (Num 0) = Num 0"
  by (induction k) (simp_all add: addedTimes_Suc)

lemma js_add_not_positive:
  assumes "\<not> js_gt a (Num 0)" "\<not> js_gt b (Num 0)"
  shows "\<not> js_gt (js_add a b) (Num 0)"
proof (cases "\<exists>x y. a = Num x \<and> b = Num y")
  case True
  then obtain x y where finite: "a = Num x" "b = Num y" by blast
  with assms have "x + y \<le> 0" by simp
  then show ?thesis
    unfolding finite js_add.simps by (rule toDouble_not_positive)
next
  case False
  with assms show ?thesis by (cases a; cases b) auto
qed

lemma addedTimes_not_positive:
  assumes "\<not> js_gt t (Num 0)"
  shows "\<not> js_gt (addedTimes k t) (Num 0)"
  by (induction k) (simp_all add: addedTimes_Suc js_add_not_positive assms)

lemma find_upt_None:
  assumes "\<forall>k. 1 \<le> k \<and> k \<le> m \<longrightarrow> \<not> P k"
  shows "find P [1..<Suc m] = None"
  using assms by (auto simp: find_None_iff)

lemma find_upt_first:
  assumes "1 \<le> a" "a \<le> m" "P a" "\<forall>k. 1 \<le> k \<and> k < a \<longrightarrow> \<not> P k"
  shows "find P [1..<Suc m] = Some a"
proof -
  have "a - 1 < length [1..<Suc m]" using assms by simp
  moreover have "[1..<Suc m] ! (a - 1) = a"
    using assms by (simp add: nth_upt del: upt_Suc)
  moreover have "\<forall>j<a - 1. \<not> P ([1..<Suc m] ! j)"
    using assms by (auto simp: nth_upt simp del: upt_Suc)
  ultimately show ?thesis
    using assms(3) unfolding find_Some_iff
    by (intro exI [of _ "a - 1"]) (simp del: upt_Suc)
qed

text \<open>
  The loop, entered at \<open>avg\<close> with the totals of \<open>avg - 1\<close> additions and no total so far
  above the limit, leaves with the totals of \<open>windowSteps\<close> additions.
\<close>

lemma averagingLoop_from:
  assumes "m = min (trackLen - 1 - i) (cap - 1)"
    and "1 \<le> avg" "avg \<le> Suc m"
    and "\<forall>k. 1 \<le> k \<and> k < avg \<longrightarrow> \<not> js_gt (addedTimes k (readAt deltaSeconds i)) limit"
  shows "averagingLoop cap limit trackLen steps deltaSeconds i avg
           (addedTimes (avg - 1) (readAt steps i)) (addedTimes (avg - 1) (readAt deltaSeconds i))
         = (addedTimes (windowSteps m (readAt deltaSeconds i) limit) (readAt steps i),
            addedTimes (windowSteps m (readAt deltaSeconds i) limit) (readAt deltaSeconds i))"
  using assms(2-4)
proof (induction "Suc m - avg" arbitrary: avg)
  case 0
  then have avg: "avg = Suc m" by simp
  then have stop: "\<not> (i + avg < trackLen \<and> avg < cap)"
    using assms(1) by auto
  have "find (\<lambda>k. js_gt (addedTimes k (readAt deltaSeconds i)) limit) [1..<Suc m] = None"
    using "0.prems"(3) avg by (intro find_upt_None) auto
  then have "windowSteps m (readAt deltaSeconds i) limit = m"
    by (simp add: windowSteps_def)
  with stop avg show ?case
    by (subst averagingLoop.simps) auto
next
  case (Suc n)
  then have le: "avg \<le> m" by simp
  then have go: "i + avg < trackLen \<and> avg < cap"
    using assms(1) Suc.prems(1) by auto
  let ?t = "readAt deltaSeconds i"
  have t2: "js_add (addedTimes (avg - 1) ?t) ?t = addedTimes avg ?t"
    using Suc.prems(1) addedTimes_Suc [of "avg - 1" ?t] by simp
  have d2: "js_add (addedTimes (avg - 1) (readAt steps i)) (readAt steps i)
              = addedTimes avg (readAt steps i)"
    using Suc.prems(1) addedTimes_Suc [of "avg - 1" "readAt steps i"] by simp
  show ?case
  proof (cases "js_gt (addedTimes avg ?t) limit")
    case True
    have "find (\<lambda>k. js_gt (addedTimes k ?t) limit) [1..<Suc m] = Some avg"
      using Suc.prems(1) le True Suc.prems(3) by (intro find_upt_first) auto
    then have "windowSteps m ?t limit = avg"
      by (simp add: windowSteps_def)
    with go True t2 d2 show ?thesis
      by (subst averagingLoop.simps) (simp add: Let_def)
  next
    case False
    have "n = Suc m - Suc avg" using Suc.hyps(2) by simp
    moreover have "\<forall>k. 1 \<le> k \<and> k < Suc avg \<longrightarrow> \<not> js_gt (addedTimes k ?t) limit"
      using Suc.prems(3) False by (auto simp: less_Suc_eq)
    ultimately have "averagingLoop cap limit trackLen steps deltaSeconds i (Suc avg)
           (addedTimes (Suc avg - 1) (readAt steps i)) (addedTimes (Suc avg - 1) ?t)
         = (addedTimes (windowSteps m ?t limit) (readAt steps i),
            addedTimes (windowSteps m ?t limit) ?t)"
      using le by (intro Suc.hyps(1)) auto
    with go False t2 d2 show ?thesis
      by (subst averagingLoop.simps) (simp add: Let_def)
  qed
qed

lemma averagingLoop_windowTotals:
  "averagingLoop cap limit trackLen steps deltaSeconds i (Suc 0) (Num 0) (Num 0)
     = windowTotals cap limit trackLen i (readAt steps i) (readAt deltaSeconds i)"
  using averagingLoop_from
    [of "min (trackLen - 1 - i) (cap - 1)" trackLen i cap 1 deltaSeconds limit steps]
  by (simp add: windowTotals_def Let_def)

subsection \<open>The step arrays\<close>

lemma verticalSteps_fold:
  "fold (\<lambda>i (distZ, deltaSec).
           (writeAt distZ i (js_sub (readAt alt' i) (readAt alt' (i - 1))),
            writeAt deltaSec i (js_sub (readAt timeSec' i) (readAt timeSec' (i - 1)))))
        [1..<Suc n] ([Num 0], [Num 0])
   = (map (stepDifference alt') [0..<Suc n], map (stepDifference timeSec') [0..<Suc n])"
proof (induction n)
  case 0
  show ?case by (simp add: stepDifference_def)
next
  case (Suc n)
  have "[1..<Suc (Suc n)] = [1..<Suc n] @ [Suc n]" by simp
  then show ?case
    using Suc by (simp only: fold_append o_apply fold_simps prod.case)
      (simp add: writeAt_def stepDifference_def)
qed

lemma verticalSteps_eq:
  "verticalSteps alt' timeSec' =
     (map (stepDifference alt') [0..<max 1 (length alt')],
      map (stepDifference timeSec') [0..<max 1 (length alt')])"
proof (cases "length alt'")
  case 0
  then show ?thesis by (simp add: verticalSteps_def stepDifference_def)
next
  case (Suc n)
  then show ?thesis
    unfolding verticalSteps_def using verticalSteps_fold [of alt' timeSec' n]
    by (simp add: max_def)
qed

lemma horizontalSteps_fold:
  "fold (\<lambda>i (previousLatLon, distX, distZ, deltaSeconds).
           let currentLatLon = latLonAt track i
           in (currentLatLon,
               writeAt distX i (getDistance previousLatLon currentLatLon),
               writeAt distZ i
                 (js_sub (readAt (Track.alt track) i) (readAt (Track.alt track) (i - 1))),
               writeAt deltaSeconds i
                 (js_sub (readAt (Track.timeSec track) i)
                    (readAt (Track.timeSec track) (i - 1)))))
        [1..<Suc n]
        (latLonAt track 0, [Num 0], [Num 0], [Num 0])
   = (latLonAt track n,
      map (stepDistance getDistance track) [0..<Suc n],
      map (stepDifference (Track.alt track)) [0..<Suc n],
      map (stepDifference (Track.timeSec track)) [0..<Suc n])"
proof (induction n)
  case 0
  show ?case by (simp add: stepDifference_def stepDistance_def)
next
  case (Suc n)
  have "[1..<Suc (Suc n)] = [1..<Suc n] @ [Suc n]" by simp
  then show ?case
    using Suc by (simp only: fold_append o_apply fold_simps prod.case)
      (simp add: writeAt_def stepDifference_def stepDistance_def Let_def)
qed

lemma horizontalSteps_eq:
  "horizontalSteps getDistance track =
     (map (stepDistance getDistance track) [0..<max 1 (length (Track.lat track))],
      map (stepDifference (Track.alt track)) [0..<max 1 (length (Track.lat track))],
      map (stepDifference (Track.timeSec track)) [0..<max 1 (length (Track.lat track))])"
proof (cases "length (Track.lat track)")
  case 0
  then show ?thesis by (simp add: horizontalSteps_def stepDifference_def stepDistance_def)
next
  case (Suc n)
  then show ?thesis
    unfolding horizontalSteps_def using horizontalSteps_fold [of track getDistance n]
    by (simp add: max_def)
qed

lemma readAt_map_upt: "i < n \<Longrightarrow> readAt (map f [0..<n]) i = f i"
  by (simp add: readAt_def)

subsection \<open>The speed at one fix\<close>

lemma horizontalSpeed_nth:
  assumes "i < length (Track.lat track)"
  shows "horizontalSpeed (length (Track.lat track))
           (map (stepDistance getDistance track) [0..<max 1 (length (Track.lat track))])
           (map (stepDifference (Track.timeSec track)) [0..<max 1 (length (Track.lat track))]) ! i =
     (let (D, T) = windowTotals 65 (Num 60) (length (Track.lat track)) i
                     (stepDistance getDistance track i) (stepDifference (Track.timeSec track) i)
      in if js_gt T (Num 0) then Math_round (js_div (js_mul (toDouble (36 / 10)) D) T) else Num 0)"
  using assms
  by (simp add: horizontalSpeed_def Let_def averagingLoop_windowTotals readAt_map_upt split_beta)

lemma vx_protoToRuntimeTrack:
  "vx (protoToRuntimeTrack getDistance trackId p postProcessed) =
     horizontalSpeed (length (Track.lat (diffDecodeTrack p)))
       (map (stepDistance getDistance (diffDecodeTrack p))
          [0..<max 1 (length (Track.lat (diffDecodeTrack p)))])
       (map (stepDifference (Track.timeSec (diffDecodeTrack p)))
          [0..<max 1 (length (Track.lat (diffDecodeTrack p)))])"
  by (simp add: protoToRuntimeTrack_def Let_def horizontalSteps_eq)

lemma vx_nth:
  assumes "i < length (Track.lat p)"
  shows "vx (protoToRuntimeTrack getDistance trackId p postProcessed) ! i =
     (let track = diffDecodeTrack p;
          (D, T) = windowTotals 65 (Num 60) (length (Track.lat track)) i
                     (stepDistance getDistance track i) (stepDifference (Track.timeSec track) i)
      in if js_gt T (Num 0) then Math_round (js_div (js_mul (toDouble (36 / 10)) D) T) else Num 0)"
  using assms horizontalSpeed_nth [of i "diffDecodeTrack p" getDistance]
  by (simp add: vx_protoToRuntimeTrack Let_def)

lemma vz_nth:
  assumes "i < length alt'"
  shows "computeVerticalSpeed alt' timeSec' ! i =
     (let (D, T) = windowTotals 35 (Num 30) (length alt') i
                     (stepDifference alt' i) (stepDifference timeSec' i)
      in if js_gt T (Num 0) then toFixed1 (js_div D T) else Num 0)"
  using assms
  by (simp add: computeVerticalSpeed_def Let_def verticalSteps_eq
        averagingLoop_windowTotals readAt_map_upt split_beta)


text \<open>The doubles that the witnesses meet.\<close>

lemma toDouble_samples:
  "toDouble (1 / 1000) = Num (1152921504606847 / 1152921504606846976)"
  "toDouble (1 / 500) = Num (1152921504606847 / 576460752303423488)"
  "toDouble (3 / 1000) = Num (3458764513820541 / 1152921504606846976)"
  "toDouble (1 / 100000) = Num (5902958103587057 / 590295810358705651712)"
  "toDouble (1 / 50000) = Num (5902958103587057 / 295147905179352825856)"
  "toDouble (18 / 5) = Num (8106479329266893 / 2251799813685248)"
  "toDouble (3 / 20) = Num (5404319552844595 / 36028797018963968)"
  "toDouble (1 / 10) = Num (3602879701896397 / 36028797018963968)"
  "toDouble (1 / 2) = Num (1 / 2)"
  by (simp_all add: toDouble_eval)

lemma sampleDecoded: "diffDecodeTrack sampleEncoded = sampleTrack"
  by (simp add: diffDecodeTrack_def sampleEncoded_def sampleTrack_def diffDecodeArray_def
        toDouble_eval)

lemma pausedDecoded:
  "diffDecodeTrack pausedEncoded =
     \<lparr>pilot = ''pilot'',
      Track.lat = [Num 10, Num 10, Num 10, Num 10],
      Track.lon = [Num 0, Num (1152921504606847 / 1152921504606846976),
                   Num (1152921504606847 / 576460752303423488),
                   Num (3458764513820541 / 1152921504606846976)],
      Track.alt = [Num 100, Num 110, Num 105, Num 105],
      Track.timeSec = [Num 0, Num 10, Num 10, Num 20]\<rparr>"
  by (simp add: diffDecodeTrack_def pausedEncoded_def diffDecodeArray_def toDouble_eval)






lemma stepDifference_equal_values:
  assumes "i = 0 \<or> (isFinite (readAt values i) \<and> readAt values i = readAt values (i - 1))"
  shows "stepDifference values i = Num 0"
proof (cases "i = 0")
  case True
  then show ?thesis by (simp add: stepDifference_def)
next
  case False
  with assms obtain x where "readAt values i = Num x" "readAt values (i - 1) = Num x"
    by (cases "readAt values i") auto
  with False show ?thesis by (simp add: stepDifference_def js_sub_def)
qed

lemma windowTotals_time_not_positive:
  assumes "\<not> js_gt t (Num 0)"
  shows "\<not> js_gt (snd (windowTotals cap limit N i d t)) (Num 0)"
  using assms by (simp add: windowTotals_def Let_def addedTimes_not_positive)

lemma vx_zero:
  assumes "i < length (Track.lat p)"
    and "\<not> js_gt (snd (windowTotals 65 (Num 60) (length (Track.lat p)) i
                        (stepDistance getDistance (diffDecodeTrack p) i)
                        (stepDifference (Track.timeSec (diffDecodeTrack p)) i))) (Num 0)"
  shows "vx (protoToRuntimeTrack getDistance trackId p postProcessed) ! i = Num 0"
  using assms by (simp add: vx_nth Let_def split_beta)

lemma vz_zero:
  assumes "i < length (Track.alt p)"
    and "\<not> js_gt (snd (windowTotals 35 (Num 30) (length (Track.alt p)) i
                        (stepDifference (Track.alt (diffDecodeTrack p)) i)
                        (stepDifference (Track.timeSec (diffDecodeTrack p)) i))) (Num 0)"
  shows "vz (protoToRuntimeTrack getDistance trackId p postProcessed) ! i = Num 0"
  using assms by (simp add: protoToRuntimeTrack_fields vz_nth Let_def split_beta)

text \<open>
  C6. At every index \<open>i\<close> of a trajectory, \<open>vx[i]\<close> is exactly 0 when the time
  accumulated over its window is not strictly positive, and so is \<open>vz[i]\<close>. The time a
  window accumulates is the step time \<open>timeSec[i] - timeSec[i-1]\<close> of its fix, added once
  per step; so when that step time is not strictly positive, and in particular when the
  two consecutive values of \<open>timeSec\<close> are equal, both speeds are exactly 0, which is a
  finite number.
\<close>

theorem zero_elapsed_time_gives_zero_speed:
  assumes "i < length (Track.lat p)" and "i < length (Track.alt p)"
  shows
    "(\<not> js_gt (snd (windowTotals 65 (Num 60) (length (Track.lat p)) i
                     (stepDistance getDistance (diffDecodeTrack p) i)
                     (stepDifference (Track.timeSec (diffDecodeTrack p)) i))) (Num 0) \<longrightarrow>
        vx (protoToRuntimeTrack getDistance trackId p postProcessed) ! i = Num 0) \<and>
     (\<not> js_gt (snd (windowTotals 35 (Num 30) (length (Track.alt p)) i
                     (stepDifference (Track.alt (diffDecodeTrack p)) i)
                     (stepDifference (Track.timeSec (diffDecodeTrack p)) i))) (Num 0) \<longrightarrow>
        vz (protoToRuntimeTrack getDistance trackId p postProcessed) ! i = Num 0) \<and>
     (\<not> js_gt (stepDifference (Track.timeSec (diffDecodeTrack p)) i) (Num 0) \<longrightarrow>
        vx (protoToRuntimeTrack getDistance trackId p postProcessed) ! i = Num 0 \<and>
        vz (protoToRuntimeTrack getDistance trackId p postProcessed) ! i = Num 0) \<and>
     (i = 0 \<or> (isFinite (readAt (Track.timeSec (diffDecodeTrack p)) i) \<and>
                readAt (Track.timeSec (diffDecodeTrack p)) i
                  = readAt (Track.timeSec (diffDecodeTrack p)) (i - 1)) \<longrightarrow>
        vx (protoToRuntimeTrack getDistance trackId p postProcessed) ! i = Num 0 \<and>
        vz (protoToRuntimeTrack getDistance trackId p postProcessed) ! i = Num 0)"
proof (intro conjI impI)
  assume "\<not> js_gt (snd (windowTotals 65 (Num 60) (length (Track.lat p)) i
                     (stepDistance getDistance (diffDecodeTrack p) i)
                     (stepDifference (Track.timeSec (diffDecodeTrack p)) i))) (Num 0)"
  with assms(1) show "vx (protoToRuntimeTrack getDistance trackId p postProcessed) ! i = Num 0"
    by (rule vx_zero)
next
  assume "\<not> js_gt (snd (windowTotals 35 (Num 30) (length (Track.alt p)) i
                     (stepDifference (Track.alt (diffDecodeTrack p)) i)
                     (stepDifference (Track.timeSec (diffDecodeTrack p)) i))) (Num 0)"
  with assms(2) show "vz (protoToRuntimeTrack getDistance trackId p postProcessed) ! i = Num 0"
    by (rule vz_zero)
next
  assume "\<not> js_gt (stepDifference (Track.timeSec (diffDecodeTrack p)) i) (Num 0)"
  then show "vx (protoToRuntimeTrack getDistance trackId p postProcessed) ! i = Num 0"
    using assms(1) by (intro vx_zero windowTotals_time_not_positive)
next
  assume "\<not> js_gt (stepDifference (Track.timeSec (diffDecodeTrack p)) i) (Num 0)"
  then show "vz (protoToRuntimeTrack getDistance trackId p postProcessed) ! i = Num 0"
    using assms(2) by (intro vz_zero windowTotals_time_not_positive)
next
  assume "i = 0 \<or> (isFinite (readAt (Track.timeSec (diffDecodeTrack p)) i) \<and>
                readAt (Track.timeSec (diffDecodeTrack p)) i
                  = readAt (Track.timeSec (diffDecodeTrack p)) (i - 1))"
  then have "stepDifference (Track.timeSec (diffDecodeTrack p)) i = Num 0"
    by (rule stepDifference_equal_values)
  then show "vx (protoToRuntimeTrack getDistance trackId p postProcessed) ! i = Num 0"
    using assms(1) by (intro vx_zero windowTotals_time_not_positive) simp_all
next
  assume "i = 0 \<or> (isFinite (readAt (Track.timeSec (diffDecodeTrack p)) i) \<and>
                readAt (Track.timeSec (diffDecodeTrack p)) i
                  = readAt (Track.timeSec (diffDecodeTrack p)) (i - 1))"
  then have "stepDifference (Track.timeSec (diffDecodeTrack p)) i = Num 0"
    by (rule stepDifference_equal_values)
  then show "vz (protoToRuntimeTrack getDistance trackId p postProcessed) ! i = Num 0"
    using assms(2) by (intro vz_zero windowTotals_time_not_positive) simp_all
qed

theorem zero_elapsed_time_gives_zero_speed_witness:
  "2 < length (Track.lat pausedEncoded) \<and> 2 < length (Track.alt pausedEncoded) \<and>
   readAt (Track.timeSec (diffDecodeTrack pausedEncoded)) 2 = Num 10 \<and>
   readAt (Track.timeSec (diffDecodeTrack pausedEncoded)) 1 = Num 10 \<and>
   stepDistance sampleDistance (diffDecodeTrack pausedEncoded) 2 = Num 111 \<and>
   stepDifference (Track.alt (diffDecodeTrack pausedEncoded)) 2 = Num (- 5) \<and>
   vx (protoToRuntimeTrack sampleDistance ''42-0'' pausedEncoded True) ! 2 = Num 0 \<and>
   vz (protoToRuntimeTrack sampleDistance ''42-0'' pausedEncoded True) ! 2 = Num 0"
proof -
  have len: "2 < length (Track.lat pausedEncoded)" "2 < length (Track.alt pausedEncoded)"
    by (simp_all add: pausedEncoded_def)
  have t2: "readAt (Track.timeSec (diffDecodeTrack pausedEncoded)) 2 = Num 10"
    and t1: "readAt (Track.timeSec (diffDecodeTrack pausedEncoded)) 1 = Num 10"
    by (simp_all add: pausedDecoded readAt_def)
  have d: "stepDistance sampleDistance (diffDecodeTrack pausedEncoded) 2 = Num 111"
    by (simp add: pausedDecoded stepDistance_def sampleDistance_def latLonAt_def readAt_def)
  have z: "stepDifference (Track.alt (diffDecodeTrack pausedEncoded)) 2 = Num (- 5)"
    by (simp add: pausedDecoded stepDifference_def readAt_def js_sub_def toDouble_eval)
  have s: "stepDifference (Track.timeSec (diffDecodeTrack pausedEncoded)) 2 = Num 0"
    by (simp add: pausedDecoded stepDifference_def readAt_def js_sub_def)
  have w: "snd (windowTotals cap limit N 2 x (Num 0)) = Num 0" for cap limit N x
    by (simp add: windowTotals_def Let_def)
  show ?thesis
    using len t2 t1 d z
      zero_elapsed_time_gives_zero_speed [OF len, of sampleDistance "''42-0''" True]
    by (simp add: s w)
qed

section \<open>Extrema\<close>

lemma not_js_gt_trans:
  assumes "\<not> js_gt a b" "\<not> js_gt b c" "b \<noteq> NaN"
  shows "\<not> js_gt a c"
  using assms by (cases a; cases b; cases c) auto

lemma max2_cases:
  assumes "a \<noteq> NaN" "x \<noteq> NaN"
  shows "max2 a x \<noteq> NaN \<and> (max2 a x = a \<or> max2 a x = x) \<and>
         \<not> js_gt a (max2 a x) \<and> \<not> js_gt x (max2 a x)"
  using assms by (cases a; cases x) (auto simp: max2_def)

lemma min2_cases:
  assumes "a \<noteq> NaN" "x \<noteq> NaN"
  shows "min2 a x \<noteq> NaN \<and> (min2 a x = a \<or> min2 a x = x) \<and>
         \<not> js_gt (min2 a x) a \<and> \<not> js_gt (min2 a x) x"
  using assms by (cases a; cases x) (auto simp: min2_def)

lemma fold_max2:
  assumes "NaN \<notin> set xs" "a \<noteq> NaN"
  shows "fold (\<lambda>x m. max2 m x) xs a \<noteq> NaN \<and>
         (fold (\<lambda>x m. max2 m x) xs a = a \<or> fold (\<lambda>x m. max2 m x) xs a \<in> set xs) \<and>
         \<not> js_gt a (fold (\<lambda>x m. max2 m x) xs a) \<and>
         (\<forall>y\<in>set xs. \<not> js_gt y (fold (\<lambda>x m. max2 m x) xs a))"
  using assms
proof (induction xs arbitrary: a)
  case Nil
  then show ?case by (cases a) auto
next
  case (Cons x xs)
  let ?r = "fold (\<lambda>x m. max2 m x) xs (max2 a x)"
  from Cons.prems have x: "x \<noteq> NaN" and xs: "NaN \<notin> set xs" by auto
  note m = max2_cases [OF Cons.prems(2) x]
  from m have ih: "?r \<noteq> NaN \<and> (?r = max2 a x \<or> ?r \<in> set xs) \<and>
      \<not> js_gt (max2 a x) ?r \<and> (\<forall>y\<in>set xs. \<not> js_gt y ?r)"
    by (intro Cons.IH [OF xs]) simp
  have "\<not> js_gt a ?r"
    using m ih not_js_gt_trans [of a "max2 a x" ?r] by blast
  moreover have "\<not> js_gt x ?r"
    using m ih not_js_gt_trans [of x "max2 a x" ?r] by blast
  moreover have "?r = a \<or> ?r \<in> set (x # xs)"
    using m ih by auto
  ultimately show ?case using ih by simp
qed

lemma fold_min2:
  assumes "NaN \<notin> set xs" "a \<noteq> NaN"
  shows "fold (\<lambda>x m. min2 m x) xs a \<noteq> NaN \<and>
         (fold (\<lambda>x m. min2 m x) xs a = a \<or> fold (\<lambda>x m. min2 m x) xs a \<in> set xs) \<and>
         \<not> js_gt (fold (\<lambda>x m. min2 m x) xs a) a \<and>
         (\<forall>y\<in>set xs. \<not> js_gt (fold (\<lambda>x m. min2 m x) xs a) y)"
  using assms
proof (induction xs arbitrary: a)
  case Nil
  then show ?case by (cases a) auto
next
  case (Cons x xs)
  let ?r = "fold (\<lambda>x m. min2 m x) xs (min2 a x)"
  from Cons.prems have x: "x \<noteq> NaN" and xs: "NaN \<notin> set xs" by auto
  note m = min2_cases [OF Cons.prems(2) x]
  from m have ih: "?r \<noteq> NaN \<and> (?r = min2 a x \<or> ?r \<in> set xs) \<and>
      \<not> js_gt ?r (min2 a x) \<and> (\<forall>y\<in>set xs. \<not> js_gt ?r y)"
    by (intro Cons.IH [OF xs]) simp
  have "\<not> js_gt ?r a"
    using m ih not_js_gt_trans [of ?r "min2 a x" a] by blast
  moreover have "\<not> js_gt ?r x"
    using m ih not_js_gt_trans [of ?r "min2 a x" x] by blast
  moreover have "?r = a \<or> ?r \<in> set (x # xs)"
    using m ih by auto
  ultimately show ?case using ih by simp
qed

lemma not_above_NegInfinity:
  assumes "\<not> js_gt y NegInfinity" "y \<noteq> NaN"
  shows "y = NegInfinity"
  using assms by (cases y) auto

lemma not_below_PosInfinity:
  assumes "\<not> js_gt PosInfinity y" "y \<noteq> NaN"
  shows "y = PosInfinity"
  using assms by (cases y) auto

text \<open>Once \<^verbatim>\<open>NaN\<close> is met, it is the result.\<close>

lemma fold_max2_NaN:
  assumes "a = NaN \<or> NaN \<in> set xs"
  shows "fold (\<lambda>x m. max2 m x) xs a = NaN"
  using assms by (induction xs arbitrary: a) (auto simp: max2_def)

lemma fold_min2_NaN:
  assumes "a = NaN \<or> NaN \<in> set xs"
  shows "fold (\<lambda>x m. min2 m x) xs a = NaN"
  using assms by (induction xs arbitrary: a) (auto simp: min2_def)

lemma not_js_gt_NaN [simp]: "\<not> js_gt x NaN" "\<not> js_gt NaN x"
  by (cases x; simp)+

lemma Math_max_without_NaN:
  assumes "xs \<noteq> []" "NaN \<notin> set xs"
  shows "isMaximum (Math_max xs) xs"
proof -
  let ?r = "fold (\<lambda>x m. max2 m x) xs NegInfinity"
  from fold_max2 [OF assms(2), of NegInfinity]
  have r: "?r = NegInfinity \<or> ?r \<in> set xs" and above: "\<forall>y\<in>set xs. \<not> js_gt y ?r"
    by simp_all
  have "?r \<in> set xs"
  proof (cases "?r \<in> set xs")
    case False
    with r have inf: "?r = NegInfinity" by simp
    from assms(1) obtain y where y: "y \<in> set xs" by (cases xs) auto
    with above assms(2) inf have "y = NegInfinity"
      by (intro not_above_NegInfinity) auto
    with y inf show ?thesis by simp
  qed
  with above show ?thesis
    by (simp add: isMaximum_def Math_max_def list_all_iff)
qed

lemma Math_min_without_NaN:
  assumes "xs \<noteq> []" "NaN \<notin> set xs"
  shows "isMinimum (Math_min xs) xs"
proof -
  let ?r = "fold (\<lambda>x m. min2 m x) xs PosInfinity"
  from fold_min2 [OF assms(2), of PosInfinity]
  have r: "?r = PosInfinity \<or> ?r \<in> set xs" and below: "\<forall>y\<in>set xs. \<not> js_gt ?r y"
    by simp_all
  have "?r \<in> set xs"
  proof (cases "?r \<in> set xs")
    case False
    with r have inf: "?r = PosInfinity" by simp
    from assms(1) obtain y where y: "y \<in> set xs" by (cases xs) auto
    with below assms(2) inf have "y = PosInfinity"
      by (intro not_below_PosInfinity) auto
    with y inf show ?thesis by simp
  qed
  with below show ?thesis
    by (simp add: isMinimum_def Math_min_def list_all_iff)
qed

text \<open>
  \<^verbatim>\<open>Math.max\<close> of a non-empty array is an element that no element exceeds, and
  \<^verbatim>\<open>Math.min\<close> one that exceeds no element: with a \<^verbatim>\<open>NaN\<close> in the array the result is
  \<^verbatim>\<open>NaN\<close>, with which no comparison holds.
\<close>

lemma Math_max_isMaximum:
  assumes "xs \<noteq> []"
  shows "isMaximum (Math_max xs) xs"
proof (cases "NaN \<in> set xs")
  case True
  then have "Math_max xs = NaN"
    unfolding Math_max_def by (intro fold_max2_NaN) simp
  with True show ?thesis
    by (simp add: isMaximum_def list_all_iff)
next
  case False
  with assms show ?thesis by (rule Math_max_without_NaN)
qed

lemma Math_min_isMinimum:
  assumes "xs \<noteq> []"
  shows "isMinimum (Math_min xs) xs"
proof (cases "NaN \<in> set xs")
  case True
  then have "Math_min xs = NaN"
    unfolding Math_min_def by (intro fold_min2_NaN) simp
  with True show ?thesis
    by (simp add: isMinimum_def list_all_iff)
next
  case False
  with assms show ?thesis by (rule Math_min_without_NaN)
qed

lemma array_extrema:
  assumes "xs \<noteq> []"
  shows "isMaximum (Math_max xs) xs \<and> isMinimum (Math_min xs) xs"
  using assms by (simp add: Math_max_isMaximum Math_min_isMinimum)

lemma maxDistance_protoToRuntimeTrack:
  assumes "0 < length (Track.lat p)"
  shows "maxDistance (protoToRuntimeTrack getDistance trackId p postProcessed) =
     Math_max (map (stepDistance getDistance (diffDecodeTrack p)) [0..<length (Track.lat p)])"
proof -
  from assms have "1 \<le> length (Track.lat p)"
    by (simp add: Suc_leI del: length_greater_0_conv)
  then have "max 1 (length (Track.lat (diffDecodeTrack p))) = length (Track.lat p)"
    by (simp only: diffDecodeTrack_lengths max_absorb2)
  then show ?thesis
    by (simp add: protoToRuntimeTrack_def Let_def horizontalSteps_eq)
qed

lemma extrema_fields:
  "maxAlt (protoToRuntimeTrack gd tid p pp) = Math_max (RuntimeTrack.alt (protoToRuntimeTrack gd tid p pp))"
  "minAlt (protoToRuntimeTrack gd tid p pp) = Math_min (RuntimeTrack.alt (protoToRuntimeTrack gd tid p pp))"
  "maxLat (protoToRuntimeTrack gd tid p pp) = Math_max (RuntimeTrack.lat (protoToRuntimeTrack gd tid p pp))"
  "minLat (protoToRuntimeTrack gd tid p pp) = Math_min (RuntimeTrack.lat (protoToRuntimeTrack gd tid p pp))"
  "maxLon (protoToRuntimeTrack gd tid p pp) = Math_max (RuntimeTrack.lon (protoToRuntimeTrack gd tid p pp))"
  "minLon (protoToRuntimeTrack gd tid p pp) = Math_min (RuntimeTrack.lon (protoToRuntimeTrack gd tid p pp))"
  "maxTimeSec (protoToRuntimeTrack gd tid p pp)
     = Math_max (RuntimeTrack.timeSec (protoToRuntimeTrack gd tid p pp))"
  "minTimeSec (protoToRuntimeTrack gd tid p pp)
     = Math_min (RuntimeTrack.timeSec (protoToRuntimeTrack gd tid p pp))"
  "maxVx (protoToRuntimeTrack gd tid p pp) = Math_max (vx (protoToRuntimeTrack gd tid p pp))"
  "minVx (protoToRuntimeTrack gd tid p pp) = Math_min (vx (protoToRuntimeTrack gd tid p pp))"
  "maxVz (protoToRuntimeTrack gd tid p pp) = Math_max (vz (protoToRuntimeTrack gd tid p pp))"
  "minVz (protoToRuntimeTrack gd tid p pp) = Math_min (vz (protoToRuntimeTrack gd tid p pp))"
  by (simp_all add: protoToRuntimeTrack_def Let_def split: prod.split)

text \<open>
  C4. For every non-empty trajectory whose decoded arrays are finite numbers and have
  one length, with a distance function that is finite on finite points, each of
  \<open>maxAlt\<close>, \<open>maxLat\<close>, \<open>maxLon\<close>, \<open>maxTimeSec\<close>, \<open>maxVx\<close>, \<open>maxVz\<close> is the maximum and each
  of \<open>minAlt\<close>, \<open>minLat\<close>, \<open>minLon\<close>, \<open>minTimeSec\<close>, \<open>minVx\<close>, \<open>minVz\<close> is the minimum of its
  array in the track that \<^verbatim>\<open>protoToRuntimeTrack\<close> returns, and \<open>maxDistance\<close> is the maximum
  of the step distances \<open>distX\<close>.
\<close>

theorem extrema_are_true_extrema:
  assumes "finiteTrack (diffDecodeTrack p)" and "equalLengths p"
    and "0 < length (Track.lat p)" and "finiteDistances getDistance"
    and "r = protoToRuntimeTrack getDistance trackId p postProcessed"
  shows "isMaximum (maxAlt r) (RuntimeTrack.alt r) \<and> isMinimum (minAlt r) (RuntimeTrack.alt r) \<and>
     isMaximum (maxLat r) (RuntimeTrack.lat r) \<and> isMinimum (minLat r) (RuntimeTrack.lat r) \<and>
     isMaximum (maxLon r) (RuntimeTrack.lon r) \<and> isMinimum (minLon r) (RuntimeTrack.lon r) \<and>
     isMaximum (maxTimeSec r) (RuntimeTrack.timeSec r) \<and>
     isMinimum (minTimeSec r) (RuntimeTrack.timeSec r) \<and>
     isMaximum (maxVx r) (vx r) \<and> isMinimum (minVx r) (vx r) \<and>
     isMaximum (maxVz r) (vz r) \<and> isMinimum (minVz r) (vz r) \<and>
     isMaximum (maxDistance r)
       (map (stepDistance getDistance (diffDecodeTrack p)) [0..<length (Track.lat p)])"
proof -
  let ?track = "diffDecodeTrack p"
  from assms(2) have len: "length (Track.lon p) = length (Track.lat p)"
    "length (Track.alt p) = length (Track.lat p)" "length (Track.timeSec p) = length (Track.lat p)"
    by (simp_all add: equalLengths_def)
  from assms(3) len have ne: "Track.lat ?track \<noteq> []" "Track.lon ?track \<noteq> []"
    "Track.alt ?track \<noteq> []" "Track.timeSec ?track \<noteq> []"
    by (auto simp flip: length_greater_0_conv)
  have alt: "isMaximum (maxAlt r) (RuntimeTrack.alt r) \<and> isMinimum (minAlt r) (RuntimeTrack.alt r)"
    unfolding assms(5) extrema_fields protoToRuntimeTrack_fields
    using ne(3) by (rule array_extrema)
  have lat: "isMaximum (maxLat r) (RuntimeTrack.lat r) \<and> isMinimum (minLat r) (RuntimeTrack.lat r)"
    unfolding assms(5) extrema_fields protoToRuntimeTrack_fields
    using ne(1) by (rule array_extrema)
  have lon: "isMaximum (maxLon r) (RuntimeTrack.lon r) \<and> isMinimum (minLon r) (RuntimeTrack.lon r)"
    unfolding assms(5) extrema_fields protoToRuntimeTrack_fields
    using ne(2) by (rule array_extrema)
  have time: "isMaximum (maxTimeSec r) (RuntimeTrack.timeSec r) \<and>
      isMinimum (minTimeSec r) (RuntimeTrack.timeSec r)"
    unfolding assms(5) extrema_fields protoToRuntimeTrack_fields
    using ne(4) by (rule array_extrema)
  have "vx r \<noteq> []"
    using assms(3) length_vx_protoToRuntimeTrack [of getDistance trackId p postProcessed]
    unfolding assms(5) by auto
  then have vx: "isMaximum (maxVx r) (vx r) \<and> isMinimum (minVx r) (vx r)"
    unfolding assms(5) extrema_fields by (rule array_extrema)
  have "vz r \<noteq> []"
    using ne(3) unfolding assms(5) protoToRuntimeTrack_fields
    by (simp flip: length_greater_0_conv)
  then have vz: "isMaximum (maxVz r) (vz r) \<and> isMinimum (minVz r) (vz r)"
    unfolding assms(5) extrema_fields by (rule array_extrema)
  have dist: "isMaximum (maxDistance r)
       (map (stepDistance getDistance ?track) [0..<length (Track.lat p)])"
    unfolding assms(5) maxDistance_protoToRuntimeTrack [OF assms(3)]
    using assms(3) by (intro Math_max_isMaximum) simp
  from alt lat lon time vx vz dist show ?thesis by blast
qed

lemma finiteDistances_sampleDistance: "finiteDistances sampleDistance"
  by (auto simp: finiteDistances_def finitePoint_def sampleDistance_def split: number.splits)

theorem extrema_are_true_extrema_witness:
  "finiteTrack (diffDecodeTrack sampleEncoded) \<and> equalLengths sampleEncoded \<and>
   0 < length (Track.lat sampleEncoded) \<and> finiteDistances sampleDistance \<and>
   maxAlt (protoToRuntimeTrack sampleDistance ''42-0'' sampleEncoded True) = Num 110 \<and>
   minAlt (protoToRuntimeTrack sampleDistance ''42-0'' sampleEncoded True) = Num 100 \<and>
   isMaximum (Num 110) (RuntimeTrack.alt (protoToRuntimeTrack sampleDistance ''42-0'' sampleEncoded True)) \<and>
   isMinimum (Num 100) (RuntimeTrack.alt (protoToRuntimeTrack sampleDistance ''42-0'' sampleEncoded True)) \<and>
   isMaximum (maxVx (protoToRuntimeTrack sampleDistance ''42-0'' sampleEncoded True))
     (vx (protoToRuntimeTrack sampleDistance ''42-0'' sampleEncoded True)) \<and>
   isMaximum (maxDistance (protoToRuntimeTrack sampleDistance ''42-0'' sampleEncoded True))
     (map (stepDistance sampleDistance (diffDecodeTrack sampleEncoded))
        [0..<length (Track.lat sampleEncoded)])"
proof -
  have fin: "finiteTrack (diffDecodeTrack sampleEncoded)"
    by (simp add: sampleDecoded finiteTrack_def finiteArray_def sampleTrack_def toDouble_samples)
  have eq: "equalLengths sampleEncoded"
    by (simp add: equalLengths_def sampleEncoded_def)
  have ne: "0 < length (Track.lat sampleEncoded)"
    by (simp add: sampleEncoded_def)
  have hi: "maxAlt (protoToRuntimeTrack sampleDistance ''42-0'' sampleEncoded True) = Num 110"
    by (simp add: extrema_fields protoToRuntimeTrack_fields sampleDecoded sampleTrack_def
          Math_max_def max2_def)
  have lo: "minAlt (protoToRuntimeTrack sampleDistance ''42-0'' sampleEncoded True) = Num 100"
    by (simp add: extrema_fields protoToRuntimeTrack_fields sampleDecoded sampleTrack_def
          Math_min_def min2_def)
  show ?thesis
    using fin eq ne finiteDistances_sampleDistance hi lo
      extrema_are_true_extrema [OF fin eq ne finiteDistances_sampleDistance refl, of "''42-0''" True]
    by simp
qed

section \<open>Groups and overlays\<close>

lemma withoutOverlays_fields [simp]:
  "RuntimeTrack.id' (withoutOverlays t) = RuntimeTrack.id' t"
  "isPostProcessed (withoutOverlays t) = isPostProcessed t"
  by (simp_all add: withoutOverlays_def)

lemma withoutOverlays_gndAlt [simp]: "withoutOverlays (t\<lparr>gndAlt := g\<rparr>) = withoutOverlays t"
  by (simp add: withoutOverlays_def)

lemma withoutOverlays_airspaces [simp]: "withoutOverlays (t\<lparr>airspaces := a\<rparr>) = withoutOverlays t"
  by (simp add: withoutOverlays_def)

lemma addGroundAltitude_defined:
  "\<exists>t'. addGroundAltitude (Some t) gnd = Inr (Some t') \<and> withoutOverlays t' = withoutOverlays t"
  by (simp add: addGroundAltitude_Some split: option.split)

lemma addGroundAltitude_undefined:
  "addGroundAltitude None gnd = (if altitudes gnd \<noteq> None then Inl TypeError else Inr None)"
  by (simp add: addGroundAltitude_def split: option.split)

lemma addAirspaces_defined:
  "\<exists>t'. addAirspaces (Some t) asp = Inr (Some t') \<and> withoutOverlays t' = withoutOverlays t"
  by (simp add: addAirspaces_def)

lemma addAirspaces_undefined: "addAirspaces None asp = Inl TypeError"
  by (simp add: addAirspaces_def)

lemma map_withoutOverlays_update:
  assumes "i < length rt" "withoutOverlays t' = withoutOverlays (rt ! i)"
  shows "map withoutOverlays (rt[i := t']) = map withoutOverlays rt"
  using assms by (simp add: map_update list_update_same_conv)

text \<open>
  Take a merge that succeeds on every defined track, changing overlays only, and that
  fails on an undefined track exactly for the overlays that \<open>needs\<close> holds of. The loop
  over the overlays fails exactly when such an overlay lies past the tracks.
\<close>

lemma forEachOverlay_result:
  assumes defined: "\<And>t overlay. \<exists>t'. merge (Some t) overlay = Inr (Some t') \<and>
                      withoutOverlays t' = withoutOverlays t"
    and undefined: "\<And>overlay. merge None overlay = (if needs overlay then Inl TypeError else Inr None)"
  shows "if list_ex needs (drop (length rt - i) overlays)
         then forEachOverlay merge overlays i rt = Inl TypeError
         else (\<exists>rt'. forEachOverlay merge overlays i rt = Inr rt' \<and>
                     map withoutOverlays rt' = map withoutOverlays rt)"
proof (induction overlays arbitrary: i rt)
  case Nil
  show ?case by simp
next
  case (Cons overlay overlays)
  show ?case
  proof (cases "i < length rt")
    case True
    from defined [of "rt ! i" overlay] obtain t'
      where t': "merge (Some (rt ! i)) overlay = Inr (Some t')"
        and same: "withoutOverlays t' = withoutOverlays (rt ! i)" by blast
    from True have "drop (length rt - i) (overlay # overlays) = drop (length rt - Suc i) overlays"
      by (simp add: drop_Cons' )
    moreover have "map withoutOverlays (rt[i := t']) = map withoutOverlays rt"
      using True same by (rule map_withoutOverlays_update)
    ultimately show ?thesis
      using Cons.IH [of "rt[i := t']" "Suc i"] True t'
      by (auto simp: elementAt_def split: if_splits)
  next
    case False
    then have "drop (length rt - i) (overlay # overlays) = overlay # overlays"
      and "drop (length rt - Suc i) overlays = overlays"
      by simp_all
    then show ?thesis
      using Cons.IH [of rt "Suc i"] False undefined [of overlay]
      by (auto simp: elementAt_def split: if_splits)
  qed
qed

lemma groundAltitudes_result:
  "if list_ex (\<lambda>gndAlt'. altitudes gndAlt' \<noteq> None) (drop (length rt) groundAltitudes)
   then forEachOverlay addGroundAltitude groundAltitudes 0 rt = Inl TypeError
   else (\<exists>rt'. forEachOverlay addGroundAltitude groundAltitudes 0 rt = Inr rt' \<and>
               map withoutOverlays rt' = map withoutOverlays rt)"
  using forEachOverlay_result
    [of addGroundAltitude "\<lambda>gndAlt'. altitudes gndAlt' \<noteq> None" rt 0 groundAltitudes,
     OF addGroundAltitude_defined addGroundAltitude_undefined]
  by simp

lemma airspaces_result:
  "if drop (length rt) airspaces' \<noteq> []
   then forEachOverlay addAirspaces airspaces' 0 rt = Inl TypeError
   else (\<exists>rt'. forEachOverlay addAirspaces airspaces' 0 rt = Inr rt' \<and>
               map withoutOverlays rt' = map withoutOverlays rt)"
proof -
  have "list_ex (\<lambda>asp. True) xs = (xs \<noteq> [])" for xs :: "Airspaces list"
    by (cases xs) simp_all
  then show ?thesis
    using forEachOverlay_result
      [of addAirspaces "\<lambda>asp. True" rt 0 airspaces', OF addAirspaces_defined]
    by (simp add: addAirspaces_undefined)
qed

lemma map_enumerate_index:
  "map (\<lambda>(i, x). f i x) (enumerate 0 xs) = map (\<lambda>i. f i (xs ! i)) [0..<length xs]"
  by (rule nth_equalityI) (simp_all add: nth_enumerate_eq)

lemma length_builtTracks [simp]: "length (builtTracks getDistance metaGroup) = trackCount metaGroup"
  by (simp add: builtTracks_def trackCount_def split: option.split)

lemma groupRuntimeTracks_result:
  "if mergePastTracks metaGroup
   then groupRuntimeTracks getDistance metaGroup = Inl TypeError
   else (\<exists>rt. groupRuntimeTracks getDistance metaGroup = Inr rt \<and>
              map withoutOverlays rt = map withoutOverlays (builtTracks getDistance metaGroup))"
proof -
  let ?built = "builtTracks getDistance metaGroup"
  have built: "(case trackGroupBin metaGroup of
               None \<Rightarrow> []
             | Some tracks \<Rightarrow>
                 map (\<lambda>(i, protoTrack).
                        protoToRuntimeTrack getDistance
                          (createTrackId (MetaTrackGroup.id' metaGroup) (int i)) protoTrack
                          (0 < numPostprocess metaGroup))
                     (enumerate 0 tracks)) = ?built"
    by (simp add: builtTracks_def map_enumerate_index split: option.split)
  show ?thesis
  proof (cases "groundAltitudeGroupBin metaGroup")
    case None
    show ?thesis
    proof (cases "airspacesGroupBin metaGroup")
      case None
      with \<open>groundAltitudeGroupBin metaGroup = None\<close> show ?thesis
        by (simp add: groupRuntimeTracks_def built mergePastTracks_def)
    next
      case (Some airspaces')
      with None airspaces_result [of ?built airspaces'] show ?thesis
        by (simp add: groupRuntimeTracks_def built mergePastTracks_def)
    qed
  next
    case (Some groundAltitudes)
    note ground = groundAltitudes_result [of ?built groundAltitudes]
    show ?thesis
    proof (cases "list_ex (\<lambda>gndAlt'. altitudes gndAlt' \<noteq> None)
                    (drop (trackCount metaGroup) groundAltitudes)")
      case True
      with ground Some show ?thesis
        by (simp add: groupRuntimeTracks_def built mergePastTracks_def)
    next
      case False
      with ground obtain rt2
        where rt2: "forEachOverlay addGroundAltitude groundAltitudes 0 ?built = Inr rt2"
          and same: "map withoutOverlays rt2 = map withoutOverlays ?built"
        by auto
      from same have len: "length rt2 = trackCount metaGroup"
        using length_map [of withoutOverlays rt2] by simp
      show ?thesis
      proof (cases "airspacesGroupBin metaGroup")
        case None
        with Some False rt2 same show ?thesis
          by (simp add: groupRuntimeTracks_def built mergePastTracks_def)
      next
        case (Some airspaces')
        with \<open>groundAltitudeGroupBin metaGroup = Some groundAltitudes\<close> False rt2 same len
          airspaces_result [of rt2 airspaces']
        show ?thesis
          by (auto simp: groupRuntimeTracks_def built mergePastTracks_def)
      qed
    qed
  qed
qed

lemma createRuntimeTracksFrom_result:
  "if list_ex mergePastTracks metaGroups
   then createRuntimeTracksFrom getDistance runtimeTracks metaGroups = Inl TypeError
   else (\<exists>rt. createRuntimeTracksFrom getDistance runtimeTracks metaGroups = Inr (runtimeTracks @ rt) \<and>
              map withoutOverlays rt =
                concat (map (\<lambda>metaGroup. map withoutOverlays (builtTracks getDistance metaGroup))
                          metaGroups))"
proof (induction metaGroups arbitrary: runtimeTracks)
  case Nil
  show ?case by simp
next
  case (Cons metaGroup metaGroups)
  show ?case
  proof (cases "mergePastTracks metaGroup")
    case True
    with groupRuntimeTracks_result [of metaGroup getDistance] show ?thesis by simp
  next
    case False
    with groupRuntimeTracks_result [of metaGroup getDistance] obtain rt
      where rt: "groupRuntimeTracks getDistance metaGroup = Inr rt"
        and same: "map withoutOverlays rt = map withoutOverlays (builtTracks getDistance metaGroup)"
      by auto
    show ?thesis
    proof (cases "list_ex mergePastTracks metaGroups")
      case True
      with Cons.IH [of "runtimeTracks @ rt"] rt False show ?thesis by simp
    next
      case False
      with Cons.IH [of "runtimeTracks @ rt"] obtain rest
        where "createRuntimeTracksFrom getDistance (runtimeTracks @ rt) metaGroups
                 = Inr ((runtimeTracks @ rt) @ rest)"
          and "map withoutOverlays rest =
                 concat (map (\<lambda>metaGroup. map withoutOverlays (builtTracks getDistance metaGroup))
                           metaGroups)"
        by auto
      with rt same have "\<exists>rt'. createRuntimeTracksFrom getDistance runtimeTracks
                 (metaGroup # metaGroups) = Inr (runtimeTracks @ rt') \<and>
             map withoutOverlays rt' =
               concat (map (\<lambda>metaGroup. map withoutOverlays (builtTracks getDistance metaGroup))
                         (metaGroup # metaGroups))"
        by (intro exI [of _ "rt @ rest"]) simp
      with False \<open>\<not> mergePastTracks metaGroup\<close> show ?thesis
        by simp
    qed
  qed
qed

lemma createRuntimeTracks_result:
  "if list_ex mergePastTracks metaGroups
   then createRuntimeTracks getDistance metaGroups = Inl TypeError
   else (\<exists>rt. createRuntimeTracks getDistance metaGroups = Inr rt \<and>
              map withoutOverlays rt =
                concat (map (\<lambda>metaGroup. map withoutOverlays (builtTracks getDistance metaGroup))
                          metaGroups))"
  using createRuntimeTracksFrom_result [of metaGroups getDistance "[]"]
  by (auto simp: createRuntimeTracks_def split: if_splits)

lemma ids_builtTracks:
  "map RuntimeTrack.id' (builtTracks getDistance metaGroup) =
     map (\<lambda>i. createTrackId (MetaTrackGroup.id' metaGroup) (int i)) [0..<trackCount metaGroup]"
  by (simp add: builtTracks_def trackCount_def protoToRuntimeTrack_fields split: option.split)

lemma flags_builtTracks:
  "map isPostProcessed (builtTracks getDistance metaGroup) =
     replicate (trackCount metaGroup) (0 < numPostprocess metaGroup)"
  by (simp add: builtTracks_def trackCount_def protoToRuntimeTrack_fields map_replicate_const
      o_def split: option.split)

lemma createRuntimeTracks_tracks:
  assumes "\<not> list_ex mergePastTracks metaGroups"
  shows "\<exists>tracks. createRuntimeTracks getDistance metaGroups = Inr tracks \<and>
     map withoutOverlays tracks =
       concat (map (\<lambda>metaGroup. map withoutOverlays (builtTracks getDistance metaGroup)) metaGroups) \<and>
     map RuntimeTrack.id' tracks =
       concat (map (\<lambda>metaGroup. map (\<lambda>i. createTrackId (MetaTrackGroup.id' metaGroup) (int i))
                                  [0..<trackCount metaGroup]) metaGroups) \<and>
     map isPostProcessed tracks =
       concat (map (\<lambda>metaGroup. replicate (trackCount metaGroup) (0 < numPostprocess metaGroup))
                 metaGroups) \<and>
     length tracks = sum_list (map trackCount metaGroups)"
proof -
  from assms createRuntimeTracks_result [of metaGroups getDistance] obtain tracks
    where ok: "createRuntimeTracks getDistance metaGroups = Inr tracks"
      and same: "map withoutOverlays tracks =
        concat (map (\<lambda>metaGroup. map withoutOverlays (builtTracks getDistance metaGroup)) metaGroups)"
    by auto
  have "map RuntimeTrack.id' tracks = map RuntimeTrack.id' (map withoutOverlays tracks)"
    by simp
  also have "\<dots> = concat (map (\<lambda>metaGroup. map RuntimeTrack.id' (builtTracks getDistance metaGroup))
                         metaGroups)"
    unfolding same by (simp add: map_concat o_def)
  finally have ids: "map RuntimeTrack.id' tracks =
       concat (map (\<lambda>metaGroup. map (\<lambda>i. createTrackId (MetaTrackGroup.id' metaGroup) (int i))
                                  [0..<trackCount metaGroup]) metaGroups)"
    by (simp only: ids_builtTracks)
  have "map isPostProcessed tracks = map isPostProcessed (map withoutOverlays tracks)"
    by simp
  also have "\<dots> = concat (map (\<lambda>metaGroup. map isPostProcessed (builtTracks getDistance metaGroup))
                         metaGroups)"
    unfolding same by (simp add: map_concat o_def)
  finally have flags: "map isPostProcessed tracks =
       concat (map (\<lambda>metaGroup. replicate (trackCount metaGroup) (0 < numPostprocess metaGroup))
                 metaGroups)"
    by (simp only: flags_builtTracks)
  have "length tracks = length (map withoutOverlays tracks)"
    by simp
  also have "\<dots> = sum_list (map trackCount metaGroups)"
    unfolding same by (simp add: length_concat o_def)
  finally have len: "length tracks = sum_list (map trackCount metaGroups)" .
  from ok same ids flags len show ?thesis by blast
qed

lemma overlaysWithinTracks_safe:
  assumes "overlaysWithinTracks metaGroup"
  shows "\<not> mergePastTracks metaGroup"
  using assms by (auto simp: overlaysWithinTracks_def mergePastTracks_def split: option.splits)

lemma createRuntimeTracks_fails_iff:
  "createRuntimeTracks getDistance metaGroups = Inl TypeError
     \<longleftrightarrow> list_ex mergePastTracks metaGroups"
  using createRuntimeTracks_result [of metaGroups getDistance]
  by (auto split: if_splits)

lemma sampleGroup_safe: "\<not> mergePastTracks sampleGroup"
  by (simp add: mergePastTracks_def sampleGroup_def trackCount_def)

lemma absentGroup_safe: "\<not> mergePastTracks absentGroup"
  by (simp add: mergePastTracks_def absentGroup_def)

lemma orphanGroup_unsafe: "mergePastTracks orphanGroup"
  by (simp add: mergePastTracks_def orphanGroup_def trackCount_def sampleGroundAltitude_def)

lemma sampleGroup_one_length: "tracksOfOneLength sampleGroup"
  by (simp add: tracksOfOneLength_def sampleGroup_def equalLengths_def sampleEncoded_def)

lemma absentGroup_one_length: "tracksOfOneLength absentGroup"
  by (simp add: tracksOfOneLength_def absentGroup_def)

lemma orphanGroup_one_length: "tracksOfOneLength orphanGroup"
  by (simp add: tracksOfOneLength_def orphanGroup_def)

text \<open>
  C9, as the claim states it, fails: a group without a trajectory container whose ground
  altitude overlay has an entry makes the whole call fail, so the track of the other
  group, which the call returns when that group is alone, is not returned. The only
  trajectory of the two groups has arrays of one length.
\<close>

theorem createRuntimeTracks_counterexample:
  "list_all tracksOfOneLength [orphanGroup, sampleGroup] \<and>
   trackGroupBin orphanGroup = None \<and>
   map_sum id (map RuntimeTrack.id') (createRuntimeTracks sampleDistance [sampleGroup]) = Inr [''42-0''] \<and>
   createRuntimeTracks sampleDistance [orphanGroup, sampleGroup] = Inl TypeError"
proof -
  have "\<not> list_ex mergePastTracks [sampleGroup]"
    by (simp add: sampleGroup_safe)
  from createRuntimeTracks_tracks [OF this, of sampleDistance]
  have "map_sum id (map RuntimeTrack.id') (createRuntimeTracks sampleDistance [sampleGroup])
          = Inr [''42-0'']"
    by (auto simp: sampleGroup_def trackCount_def createTrackId_def Number_toString_def
          decimal.simps digitChar_def)
  moreover have "createRuntimeTracks sampleDistance [orphanGroup, sampleGroup] = Inl TypeError"
    by (simp add: createRuntimeTracks_def groupRuntimeTracks_def orphanGroup_def
          sampleGroundAltitude_def addGroundAltitude_def elementAt_def)
  moreover have "list_all tracksOfOneLength [orphanGroup, sampleGroup]"
    by (simp add: sampleGroup_one_length orphanGroup_one_length)
  ultimately show ?thesis
    by (simp add: orphanGroup_def)
qed

text \<open>
  C9, amended. When every trajectory of every group has arrays of one length and no
  group has a merge past its tracks, \<^verbatim>\<open>createRuntimeTracks\<close> returns the concatenation, in
  the order of the groups and of the index in the group, of one track per decoded
  trajectory: the track \<^verbatim>\<open>protoToRuntimeTrack\<close> builds for it, up to the overlays merged
  into it, with the id composed from the group id and the index, and post-processed
  exactly when \<open>numPostprocess > 0\<close>; a group without a trajectory container contributes
  no track. (When some group has a merge past its tracks the call fails and returns no
  track at all, see C10.)
\<close>

theorem createRuntimeTracks_one_track_per_trajectory:
  assumes "list_all tracksOfOneLength metaGroups"
    and "\<not> list_ex mergePastTracks metaGroups"
  shows "\<exists>tracks. createRuntimeTracks getDistance metaGroups = Inr tracks \<and>
     map withoutOverlays tracks =
       concat (map (\<lambda>metaGroup. map withoutOverlays (builtTracks getDistance metaGroup)) metaGroups) \<and>
     map RuntimeTrack.id' tracks =
       concat (map (\<lambda>metaGroup. map (\<lambda>i. createTrackId (MetaTrackGroup.id' metaGroup) (int i))
                                  [0..<trackCount metaGroup]) metaGroups) \<and>
     map isPostProcessed tracks =
       concat (map (\<lambda>metaGroup. replicate (trackCount metaGroup) (0 < numPostprocess metaGroup))
                 metaGroups) \<and>
     length tracks = sum_list (map trackCount metaGroups)"
  using assms(2) by (rule createRuntimeTracks_tracks)

theorem createRuntimeTracks_one_track_per_trajectory_witness:
  "list_all tracksOfOneLength [absentGroup, sampleGroup] \<and>
   \<not> list_ex mergePastTracks [absentGroup, sampleGroup] \<and>
   (\<exists>tracks. createRuntimeTracks sampleDistance [absentGroup, sampleGroup] = Inr tracks \<and>
      map RuntimeTrack.id' tracks = [''42-0''] \<and>
      map isPostProcessed tracks = [True] \<and>
      length tracks = 1)"
proof -
  have one: "list_all tracksOfOneLength [absentGroup, sampleGroup]"
    by (simp add: sampleGroup_one_length absentGroup_one_length)
  have safe: "\<not> list_ex mergePastTracks [absentGroup, sampleGroup]"
    by (simp add: sampleGroup_safe absentGroup_safe)
  have counts: "trackCount absentGroup = 0" "trackCount sampleGroup = 1"
    by (simp_all add: trackCount_def absentGroup_def sampleGroup_def)
  have first: "createTrackId (MetaTrackGroup.id' sampleGroup) 0 = ''42-0''"
    by (simp add: sampleGroup_def createTrackId_def Number_toString_def decimal.simps digitChar_def)
  have flag: "(0 < numPostprocess sampleGroup) = True"
    by (simp add: sampleGroup_def)
  from createRuntimeTracks_one_track_per_trajectory [OF one safe, of sampleDistance]
  obtain tracks where "createRuntimeTracks sampleDistance [absentGroup, sampleGroup] = Inr tracks"
    and "map RuntimeTrack.id' tracks = [''42-0'']"
    and "map isPostProcessed tracks = [True]"
    and "length tracks = 1"
    by (auto simp: counts first flag)
  with one safe show ?thesis by simp
qed

text \<open>
  C10, as the claim states it, fails: an entry of the ground altitude overlay whose
  \<open>altitudes\<close> is not an array is skipped before the track is looked at, so such an entry
  at an index with no track does not make the call fail.
\<close>

theorem overlay_past_tracks_counterexample:
  "tracksOfOneLength silentGroup \<and>
   trackGroupBin silentGroup = None \<and>
   groundAltitudeGroupBin silentGroup = Some [\<lparr>altitudes = None\<rparr>] \<and>
   \<not> overlaysWithinTracks silentGroup \<and>
   addGroundAltitude None \<lparr>altitudes = None\<rparr> = Inr None \<and>
   createRuntimeTracks sampleDistance [silentGroup] = Inr []"
  by (simp add: silentGroup_def tracksOfOneLength_def overlaysWithinTracks_def trackCount_def
        createRuntimeTracks_def groupRuntimeTracks_def addGroundAltitude_def elementAt_def)

text \<open>
  C10, amended. \<^verbatim>\<open>createRuntimeTracks\<close> merges the overlay entries of a group into
  \<^verbatim>\<open>rtTracks[i]\<close> by position with no bounds check. On groups whose trajectories have
  arrays of one length, it is safe when each overlay container of each group has at most
  as many entries as the group has decoded tracks, and it fails, with a \<^verbatim>\<open>TypeError\<close>
  and for all groups, exactly when some group has, at an index with no track, an
  airspaces entry or a ground altitude entry whose \<open>altitudes\<close> is an array:
  \<^verbatim>\<open>addAirspaces\<close> on an undefined track always fails, \<^verbatim>\<open>addGroundAltitude\<close> on an
  undefined track fails when \<open>altitudes\<close> is an array and skips silently when it is not.
\<close>

theorem overlay_merge_fails_past_the_tracks:
  assumes "list_all tracksOfOneLength metaGroups"
  shows "(createRuntimeTracks getDistance metaGroups = Inl TypeError
      \<longleftrightarrow> list_ex mergePastTracks metaGroups) \<and>
   (list_all overlaysWithinTracks metaGroups \<longrightarrow>
      (\<exists>tracks. createRuntimeTracks getDistance metaGroups = Inr tracks)) \<and>
   addGroundAltitude None gnd = (if altitudes gnd \<noteq> None then Inl TypeError else Inr None) \<and>
   addAirspaces None asp = Inl TypeError"
proof -
  have "\<exists>tracks. createRuntimeTracks getDistance metaGroups = Inr tracks"
    if "list_all overlaysWithinTracks metaGroups"
  proof -
    from that have "\<not> list_ex mergePastTracks metaGroups"
      by (auto simp: list_all_iff list_ex_iff dest: overlaysWithinTracks_safe)
    from createRuntimeTracks_tracks [OF this, of getDistance] show ?thesis by blast
  qed
  then show ?thesis
    by (simp add: createRuntimeTracks_fails_iff addGroundAltitude_undefined addAirspaces_undefined)
qed

theorem overlay_merge_fails_past_the_tracks_witness:
  "list_all tracksOfOneLength [sampleGroup, orphanGroup] \<and>
   list_all tracksOfOneLength [absentGroup, sampleGroup] \<and>
   list_ex mergePastTracks [sampleGroup, orphanGroup] \<and>
   createRuntimeTracks sampleDistance [sampleGroup, orphanGroup] = Inl TypeError \<and>
   list_all overlaysWithinTracks [absentGroup, sampleGroup] \<and>
   (\<exists>tracks. createRuntimeTracks sampleDistance [absentGroup, sampleGroup] = Inr tracks) \<and>
   addGroundAltitude None sampleGroundAltitude = Inl TypeError"
proof -
  have one: "list_all tracksOfOneLength [sampleGroup, orphanGroup]"
    "list_all tracksOfOneLength [absentGroup, sampleGroup]"
    by (simp_all add: sampleGroup_one_length absentGroup_one_length orphanGroup_one_length)
  have unsafe: "list_ex mergePastTracks [sampleGroup, orphanGroup]"
    by (simp add: orphanGroup_unsafe)
  have within: "list_all overlaysWithinTracks [absentGroup, sampleGroup]"
    by (simp add: overlaysWithinTracks_def absentGroup_def sampleGroup_def trackCount_def)
  have arr: "altitudes sampleGroundAltitude \<noteq> None"
    by (simp add: sampleGroundAltitude_def)
  show ?thesis
    using one unsafe within arr
      overlay_merge_fails_past_the_tracks
        [OF one(1), of sampleDistance sampleGroundAltitude]
      overlay_merge_fails_past_the_tracks
        [OF one(2), of sampleDistance]
    by simp
qed

end
